theory Spec2Isabelle
  imports Complex_Main
begin

section \<open>The waterfall layout of the card view\<close>

text \<open>
  A shallow embedding of \<^verbatim>\<open>WaterfallLayout.tsx\<close>. JavaScript numbers are modelled as
  real numbers: the model is exact where the program rounds to a double, and the values
  \<^verbatim>\<open>Infinity\<close>, \<^verbatim>\<open>-Infinity\<close> and \<^verbatim>\<open>NaN\<close> are not real numbers. The two
  configuration bounds that default to \<^verbatim>\<open>Infinity\<close> have a type of their own; every
  other place where the program would produce a non-finite number (a division by zero, the
  maximum of no numbers, arithmetic on an unset field) ends the model with the result
  \<open>Inl NonFinite\<close>, so that every theorem about a result \<open>Inr s\<close> is about a run whose
  numbers are all finite. The exceptions the program can throw are results as well.
\<close>

datatype error =
    TypeError    \<comment> \<open>a property read on \<^verbatim>\<open>undefined\<close> or \<^verbatim>\<open>null\<close>\<close>
  | RangeError   \<comment> \<open>\<^verbatim>\<open>Array(n)\<close> with an invalid length\<close>
  | NonFinite    \<comment> \<open>not an exception: the program goes on with Infinity or NaN, the model stops\<close>

subsection \<open>Numbers\<close>

text \<open>A number that may be \<^verbatim>\<open>Infinity\<close>: \<^verbatim>\<open>maxColumns\<close> and the sides of \<^verbatim>\<open>maxItemSize\<close>.\<close>

datatype bound = Finite real | Infinity

text \<open>\<^verbatim>\<open>Math.min(b, x)\<close> for a bound \<open>b\<close> and a finite \<open>x\<close>.\<close>

fun Math_min :: "bound \<Rightarrow> real \<Rightarrow> real" where
  "Math_min Infinity x = x"
| "Math_min (Finite b) x = min b x"

definition Math_floor :: "real \<Rightarrow> real" where
  "Math_floor x = of_int \<lfloor>x\<rfloor>"

text \<open>\<^verbatim>\<open>Math.round\<close> rounds to the nearest integer, a half towards \<open>+\<infinity>\<close>.\<close>

definition Math_round :: "real \<Rightarrow> real" where
  "Math_round x = of_int \<lfloor>x + 1 / 2\<rfloor>"

text \<open>\<^verbatim>\<open>a / b\<close>: Infinity or NaN when \<open>b\<close> is zero.\<close>

definition js_div :: "real \<Rightarrow> real \<Rightarrow> error + real" where
  "js_div a b = (if b = 0 then Inl NonFinite else Inr (a / b))"

text \<open>\<^verbatim>\<open>Math.max.apply(Math, xs)\<close>: \<^verbatim>\<open>-Infinity\<close> (here \<open>None\<close>) for no numbers.\<close>

fun Math_max :: "real list \<Rightarrow> real option" where
  "Math_max [] = None"
| "Math_max (x # xs) = (case Math_max xs of None \<Rightarrow> Some x | Some m \<Rightarrow> Some (max x m))"

text \<open>
  \<^verbatim>\<open>Array(n).fill(v)\<close>: a RangeError unless \<open>n\<close> is an integer with \<open>0 \<le> n < 2\<^sup>3\<^sup>2\<close>.
\<close>

definition Array_fill :: "real \<Rightarrow> real \<Rightarrow> error + real list" where
  "Array_fill n v =
     (if n = of_int \<lfloor>n\<rfloor> \<and> 0 \<le> n \<and> n < 4294967296
      then Inr (replicate (nat \<lfloor>n\<rfloor>) v) else Inl RangeError)"

text \<open>The truthiness of an optional number: \<^verbatim>\<open>undefined\<close> and \<open>0\<close> are falsy.\<close>

fun truthy :: "real option \<Rightarrow> bool" where
  "truthy None = False"
| "truthy (Some v) = (v \<noteq> 0)"

subsection \<open>Data\<close>

text \<open>A React key is a string or a number.\<close>

datatype key = KString string | KNumber real

text \<open>\<^verbatim>\<open>!key\<close> for the key of an optional result: no key, the empty string and \<open>0\<close> are falsy.\<close>

fun noKey :: "key option \<Rightarrow> bool" where
  "noKey None = True"
| "noKey (Some (KString t)) = (t = [])"
| "noKey (Some (KNumber n)) = (n = 0)"

text \<open>
  Modelled from the spec: \<^verbatim>\<open>Size\<close>, \<^verbatim>\<open>Rect\<close> and \<^verbatim>\<open>LayoutInfo\<close> of the virtualizer
  package, whose declarations are not among the sources. A rectangle is
  \<open>(x, y, width, height)\<close> with \<open>maxX = x + width\<close> and \<open>maxY = y + height\<close>; a layout
  entry has a key, a rectangle and the flag \<open>estimatedSize\<close>, and here also the type that
  the program passes to its constructor. A new entry has the flag unset, and
  \<^verbatim>\<open>copy()\<close> is taken by its name: a new entry with the same fields, the flag among them,
  and a rectangle of its own.
\<close>

record Size =
  size_width :: real
  size_height :: real

record Rect =
  rect_x :: real
  rect_y :: real
  rect_width :: real
  rect_height :: real

definition maxX :: "Rect \<Rightarrow> real" where
  "maxX r = rect_x r + rect_width r"

definition maxY :: "Rect \<Rightarrow> real" where
  "maxY r = rect_y r + rect_height r"

record LayoutInfo =
  li_type :: string
  li_key :: key
  li_rect :: Rect
  estimatedSize :: bool

definition new_LayoutInfo :: "string \<Rightarrow> key \<Rightarrow> Rect \<Rightarrow> LayoutInfo" where
  "new_LayoutInfo t k r = \<lparr>li_type = t, li_key = k, li_rect = r, estimatedSize = False\<rparr>"

definition LayoutInfo_copy :: "LayoutInfo \<Rightarrow> LayoutInfo" where
  "LayoutInfo_copy li =
     (new_LayoutInfo (li_type li) (li_key li) (li_rect li))\<lparr>estimatedSize := estimatedSize li\<rparr>"

text \<open>
  Modelled from the spec: a node of the collection, with its key, its type and the optional
  intrinsic width and height of its props; the collection is the list of its nodes in
  display order, \<^verbatim>\<open>size\<close> their number, \<^verbatim>\<open>getKeys()\<close> their keys and \<^verbatim>\<open>getItem(key)\<close>
  the node with that key, if any.
\<close>

record Props =
  props_width :: "real option"
  props_height :: "real option"

record Node =
  node_type :: string
  node_key :: key
  node_props :: Props

type_synonym Collection = "Node list"

definition getKeys :: "Collection \<Rightarrow> key list" where
  "getKeys c = map node_key c"

definition getItem :: "Collection \<Rightarrow> key \<Rightarrow> Node option" where
  "getItem c k = find (\<lambda>n. node_key n = k) c"

text \<open>What the layout reads from the virtualizer.\<close>

record Virtualizer =
  visibleRect :: Rect
  v_collection :: Collection
  v_contentSize :: Size

datatype direction = LTR | RTL

record InvalidationContext =
  sizeChanged :: bool

record MaxSize =
  max_width :: bound
  max_height :: bound

text \<open>
  The layout object. The cache \<^verbatim>\<open>layoutInfos\<close> is a map from keys to references, and
  \<open>heap\<close> gives the entry that a reference points to: \<^verbatim>\<open>updateItemSize\<close> writes to an
  entry after it has put a copy of it into the cache, so entries are objects with an
  identity. \<open>nextRef\<close> is the next unused reference. \<open>horizontalSpacing\<close> is unset
  until the first build.
\<close>

record Layout =
  minItemSize :: Size
  maxItemSize :: MaxSize
  margin :: real
  minSpace :: Size
  maxColumns :: bound
  itemPadding :: real
  numColumns :: real
  itemWidth :: real
  horizontalSpacing :: "real option"
  layoutInfos :: "key \<rightharpoonup> nat"
  heap :: "nat \<Rightarrow> LayoutInfo"
  nextRef :: nat
  collection :: Collection
  lastCollection :: "Collection option"
  contentSize :: Size
  isLoading :: bool
  direction :: direction
  virtualizer :: Virtualizer

text \<open>Allocating an entry, and the cache operations \<^verbatim>\<open>get\<close>, \<^verbatim>\<open>set\<close> and \<^verbatim>\<open>delete\<close>.\<close>

definition alloc :: "LayoutInfo \<Rightarrow> Layout \<Rightarrow> nat \<times> Layout" where
  "alloc li s = (nextRef s, s\<lparr>heap := (heap s)(nextRef s := li), nextRef := Suc (nextRef s)\<rparr>)"

definition cache_get :: "Layout \<Rightarrow> key \<Rightarrow> LayoutInfo option" where
  "cache_get s k = map_option (heap s) (layoutInfos s k)"

definition cache_set :: "key \<Rightarrow> nat \<Rightarrow> Layout \<Rightarrow> Layout" where
  "cache_set k r s = s\<lparr>layoutInfos := (layoutInfos s)(k \<mapsto> r)\<rparr>"

definition cache_delete :: "key \<Rightarrow> Layout \<Rightarrow> Layout" where
  "cache_delete k s = s\<lparr>layoutInfos := (layoutInfos s)(k := None)\<rparr>"

text \<open>
  Modelled from the spec: \<^verbatim>\<open>getLayoutInfo(key)\<close> of the base layout, which is not among
  the sources: the cache entry of the key, or nothing.
\<close>

definition getLayoutInfo :: "Layout \<Rightarrow> key \<Rightarrow> LayoutInfo option" where
  "getLayoutInfo s k = cache_get s k"

subsection \<open>The constructor\<close>

record WaterfallLayoutOptions =
  opt_minItemSize :: "Size option"
  opt_maxItemSize :: "MaxSize option"
  opt_minSpace :: "Size option"
  opt_maxColumns :: "bound option"
  opt_itemPadding :: "real option"

text \<open>\<^verbatim>\<open>options.maxColumns || Infinity\<close>: an absent or zero \<open>maxColumns\<close> is Infinity.\<close>

fun maxColumns_or_Infinity :: "bound option \<Rightarrow> bound" where
  "maxColumns_or_Infinity None = Infinity"
| "maxColumns_or_Infinity (Some Infinity) = Infinity"
| "maxColumns_or_Infinity (Some (Finite n)) = (if n = 0 then Infinity else Finite n)"

definition blank :: LayoutInfo where
  "blank = new_LayoutInfo [] (KString []) \<lparr>rect_x = 0, rect_y = 0, rect_width = 0, rect_height = 0\<rparr>"

text \<open>
  The new layout has an empty cache and no previous collection. The fields that the base
  layout sets from the view (the loading flag, the direction, the virtualizer) are arguments.
\<close>

definition WaterfallLayout :: "WaterfallLayoutOptions \<Rightarrow> bool \<Rightarrow> direction \<Rightarrow> Virtualizer \<Rightarrow> Layout" where
  "WaterfallLayout options loading dir v =
     \<lparr>minItemSize = (case opt_minItemSize options of None \<Rightarrow> \<lparr>size_width = 240, size_height = 136\<rparr> | Some m \<Rightarrow> m),
      maxItemSize = (case opt_maxItemSize options of None \<Rightarrow> \<lparr>max_width = Infinity, max_height = Infinity\<rparr> | Some m \<Rightarrow> m),
      margin = 24,
      minSpace = (case opt_minSpace options of None \<Rightarrow> \<lparr>size_width = 24, size_height = 24\<rparr> | Some m \<Rightarrow> m),
      maxColumns = maxColumns_or_Infinity (opt_maxColumns options),
      itemPadding = (case opt_itemPadding options of None \<Rightarrow> 56 | Some p \<Rightarrow> p),
      numColumns = 0,
      itemWidth = 0,
      horizontalSpacing = None,
      layoutInfos = Map.empty,
      heap = (\<lambda>_. blank),
      nextRef = 0,
      collection = [],
      lastCollection = None,
      contentSize = \<lparr>size_width = 0, size_height = 0\<rparr>,
      isLoading = loading,
      direction = dir,
      virtualizer = v\<rparr>"

subsection \<open>The build pass\<close>

text \<open>\<^verbatim>\<open>getNextColumnIndex\<close>: the first column of least height.\<close>

definition getNextColumnIndex :: "real list \<Rightarrow> nat" where
  "getNextColumnIndex columnHeights =
     fold (\<lambda>i minIndex. if columnHeights ! i < columnHeights ! minIndex then i else minIndex)
       [0..<length columnHeights] 0"

text \<open>
  The number of columns, the item width and the horizontal spacing, as the first part of
  \<^verbatim>\<open>buildCollection\<close> computes them. The specification assumes that
  \<open>minItemSize.width + minSpace.width\<close> is positive. For a sum of zero the program divides
  by zero and goes on with Infinity or NaN as the number of columns; these runs are outside
  the model, which stops there with \<open>Inl NonFinite\<close>, and no theorem below says anything
  about them.
\<close>

definition computeNumColumns :: "Layout \<Rightarrow> error + real" where
  "computeNumColumns s =
     (let visibleWidth = rect_width (visibleRect (virtualizer s)) in
      case js_div visibleWidth (size_width (minItemSize s) + size_width (minSpace s)) of
        Inl e \<Rightarrow> Inl e
      | Inr q \<Rightarrow> Inr (max 1 (Math_min (maxColumns s) (Math_floor q))))"

definition computeItemWidth :: "Layout \<Rightarrow> real \<Rightarrow> error + real" where
  "computeItemWidth s nc =
     (let visibleWidth = rect_width (visibleRect (virtualizer s));
          availableWidth = visibleWidth - margin s * 2;
          width = availableWidth - size_width (minSpace s) * (nc - 1) in
      case js_div width nc of
        Inl e \<Rightarrow> Inl e
      | Inr q \<Rightarrow>
          Inr (max (size_width (minItemSize s)) (Math_min (max_width (maxItemSize s)) (Math_round q))))"

definition computeHorizontalSpacing :: "Layout \<Rightarrow> real \<Rightarrow> real \<Rightarrow> error + real" where
  "computeHorizontalSpacing s nc iw =
     (let visibleWidth = rect_width (visibleRect (virtualizer s));
          availableWidth = visibleWidth - margin s * 2 in
      case js_div (availableWidth - nc * iw) (max 1 (nc - 1)) of
        Inl e \<Rightarrow> Inl e
      | Inr q \<Rightarrow> Inr (Math_round q))"

text \<open>
  The height of an item and its \<open>estimatedSize\<close> flag: the height of the entry that the
  cache has, else the intrinsic size of the node scaled to the item width, else the item
  width.
\<close>

definition computeHeight :: "InvalidationContext \<Rightarrow> Layout \<Rightarrow> real \<Rightarrow> Node \<Rightarrow> error + (real \<times> bool)" where
  "computeHeight ic s iw node =
     (case cache_get s (node_key node) of
        Some oldLayoutInfo \<Rightarrow>
          Inr (rect_height (li_rect oldLayoutInfo), sizeChanged ic \<or> estimatedSize oldLayoutInfo)
      | None \<Rightarrow>
          if truthy (props_width (node_props node)) \<and> truthy (props_height (node_props node)) then
            (let nodeWidth = the (props_width (node_props node));
                 nodeHeight = the (props_height (node_props node)) in
             case js_div iw nodeHeight of
               Inl e \<Rightarrow> Inl e
             | Inr q \<Rightarrow>
                 (let scaledHeight = Math_round (nodeWidth * q) in
                  Inr (max (size_height (minItemSize s))
                         (Math_min (max_height (maxItemSize s)) scaledHeight) + itemPadding s,
                       True)))
          else Inr (iw, True))"

text \<open>One turn of the loop over the nodes, and the loop.\<close>

definition layoutNode :: "InvalidationContext \<Rightarrow> real \<Rightarrow> real \<Rightarrow> Node \<Rightarrow> real list \<times> Layout \<Rightarrow> error + (real list \<times> Layout)" where
  "layoutNode ic iw hs node st =
     (case st of (columnHeights, s) \<Rightarrow>
      case computeHeight ic s iw node of
        Inl e \<Rightarrow> Inl e
      | Inr (h, est) \<Rightarrow>
          (let column = getNextColumnIndex columnHeights;
               x = margin s + real column * (iw + hs);
               y = columnHeights ! column;
               rect = \<lparr>rect_x = x, rect_y = y, rect_width = iw, rect_height = h\<rparr>;
               layoutInfo = (new_LayoutInfo (node_type node) (node_key node) rect)\<lparr>estimatedSize := est\<rparr>;
               (r, s1) = alloc layoutInfo s;
               s2 = cache_set (node_key node) r s1
           in Inr (columnHeights[column := columnHeights ! column
                                   + rect_height (li_rect layoutInfo) + size_height (minSpace s)],
                   s2)))"

fun layoutNodes :: "InvalidationContext \<Rightarrow> real \<Rightarrow> real \<Rightarrow> Node list \<Rightarrow> real list \<times> Layout \<Rightarrow> error + (real list \<times> Layout)" where
  "layoutNodes ic iw hs [] st = Inr st"
| "layoutNodes ic iw hs (node # nodes) st =
     (case layoutNode ic iw hs node st of
        Inl e \<Rightarrow> Inl e
      | Inr st' \<Rightarrow> layoutNodes ic iw hs nodes st')"

text \<open>The loader and the placeholder, after the items; both return the new \<open>y\<close>.\<close>

definition addLoader :: "real \<Rightarrow> Layout \<Rightarrow> real \<times> Layout" where
  "addLoader y s =
     (if isLoading s then
        (let loaderY = (if length (collection s) = 0 then 0 else y);
             loaderHeight = (if length (collection s) = 0
                             then (if rect_height (visibleRect (virtualizer s)) = 0 then 60
                                   else rect_height (visibleRect (virtualizer s)))
                             else 60);
             rect = \<lparr>rect_x = 0, rect_y = loaderY,
                     rect_width = rect_width (visibleRect (virtualizer s)), rect_height = loaderHeight\<rparr>;
             loader = new_LayoutInfo ''loader'' (KString ''loader'') rect;
             (r, s1) = alloc loader s
         in (maxY (li_rect loader), cache_set (KString ''loader'') r s1))
      else (y, s))"

definition addPlaceholder :: "real \<Rightarrow> Layout \<Rightarrow> real \<times> Layout" where
  "addPlaceholder y s =
     (if length (collection s) = 0 \<and> \<not> isLoading s then
        (let rect = \<lparr>rect_x = 0, rect_y = 0,
                     rect_width = rect_width (visibleRect (virtualizer s)),
                     rect_height = rect_height (visibleRect (virtualizer s))\<rparr>;
             placeholder = new_LayoutInfo ''placeholder'' (KString ''placeholder'') rect;
             (r, s1) = alloc placeholder s
         in (maxY (li_rect placeholder), cache_set (KString ''placeholder'') r s1))
      else (y, s))"

text \<open>
  \<^verbatim>\<open>buildCollection\<close> in two parts: \<open>layoutItems\<close> is the part up to the end of the
  loop over the nodes, with the column heights and the layout that the loop leaves;
  \<open>buildCollection\<close> goes on from there with the loader, the placeholder and the content
  size.
\<close>

definition layoutItems :: "InvalidationContext \<Rightarrow> Layout \<Rightarrow> error + (real list \<times> Layout)" where
  "layoutItems ic s =
     (case computeNumColumns s of Inl e \<Rightarrow> Inl e | Inr nc \<Rightarrow>
      case computeItemWidth s nc of Inl e \<Rightarrow> Inl e | Inr iw \<Rightarrow>
      case computeHorizontalSpacing s nc iw of Inl e \<Rightarrow> Inl e | Inr hs \<Rightarrow>
      case Array_fill nc (margin s) of Inl e \<Rightarrow> Inl e | Inr columnHeights \<Rightarrow>
        layoutNodes ic iw hs (collection s)
          (columnHeights, s\<lparr>numColumns := nc, itemWidth := iw, horizontalSpacing := Some hs\<rparr>))"

definition finishBuild :: "real list \<Rightarrow> Layout \<Rightarrow> error + Layout" where
  "finishBuild columnHeights s =
     (case Math_max columnHeights of None \<Rightarrow> Inl NonFinite | Some m \<Rightarrow>
        (let maxHeight = m - size_height (minSpace s) + margin s;
             columnHeights2 = map (\<lambda>_. maxHeight) columnHeights;
             y = columnHeights2 ! 0;
             (y1, s1) = addLoader y s;
             (y2, s2) = addPlaceholder y1 s1
         in Inr (s2\<lparr>contentSize := \<lparr>size_width = rect_width (visibleRect (virtualizer s2)),
                                     size_height = y2\<rparr>\<rparr>)))"

definition buildCollection :: "InvalidationContext \<Rightarrow> Layout \<Rightarrow> error + Layout" where
  "buildCollection ic s =
     (case layoutItems ic s of
        Inl e \<Rightarrow> Inl e
      | Inr (columnHeights, s1) \<Rightarrow> finishBuild columnHeights s1)"

subsection \<open>Validation\<close>

text \<open>
  The part of \<^verbatim>\<open>validate\<close> that removes layout information: of the keys of the last
  collection that the new one does not have, of the loader when nothing is loading, of the
  placeholder when there are items.
\<close>

fun deleteMissingKeys :: "key list \<Rightarrow> Layout \<Rightarrow> Layout" where
  "deleteMissingKeys [] s = s"
| "deleteMissingKeys (k # ks) s =
     deleteMissingKeys ks (if getItem (collection s) k = None then cache_delete k s else s)"

definition removeMissing :: "Collection \<Rightarrow> Layout \<Rightarrow> Layout" where
  "removeMissing lc s =
     (let s1 = deleteMissingKeys (getKeys lc) s;
          s2 = (if \<not> isLoading s1 then cache_delete (KString ''loader'') s1 else s1)
      in if length (collection s2) > 0 then cache_delete (KString ''placeholder'') s2 else s2)"

definition validate :: "InvalidationContext \<Rightarrow> Layout \<Rightarrow> error + Layout" where
  "validate ic s =
     (case buildCollection ic (s\<lparr>collection := v_collection (virtualizer s)\<rparr>) of
        Inl e \<Rightarrow> Inl e
      | Inr s1 \<Rightarrow>
          (let s2 = (case lastCollection s1 of None \<Rightarrow> s1 | Some lc \<Rightarrow> removeMissing lc s1)
           in Inr (s2\<lparr>lastCollection := Some (collection s2)\<rparr>)))"

subsection \<open>The size of one item\<close>

text \<open>
  \<^verbatim>\<open>updateItemSize(key, size)\<close>, with an absent size as \<open>None\<close>. The copy is a new
  object, which the cache gets; the flag is then cleared in the old one.
\<close>

definition updateItemSize :: "key \<Rightarrow> Size option \<Rightarrow> Layout \<Rightarrow> bool \<times> Layout" where
  "updateItemSize k msize s =
     (case msize of None \<Rightarrow> (False, s) | Some sz \<Rightarrow>
      case layoutInfos s k of None \<Rightarrow> (False, s) | Some old \<Rightarrow>
        (let layoutInfo = heap s old in
         if size_height sz \<noteq> rect_height (li_rect layoutInfo) then
           (let (new, s1) = alloc (LayoutInfo_copy layoutInfo) s;
                s2 = s1\<lparr>heap := (heap s1)(new := (heap s1 new)
                          \<lparr>li_rect := (li_rect (heap s1 new))\<lparr>rect_height := size_height sz\<rparr>\<rparr>)\<rparr>;
                s3 = cache_set k new s2;
                s4 = s3\<lparr>heap := (heap s3)(old := (heap s3 old)\<lparr>estimatedSize := False\<rparr>)\<rparr>
            in (True, s4))
         else (False, s)))"

subsection \<open>Navigation\<close>

text \<open>
  \<^verbatim>\<open>_findClosest(target, rect)\<close> of the base layout is not among the sources: the
  navigator takes it as an argument, a function from the cache (the entry of each key) and
  the two rectangles to the entry found, if any.
\<close>

type_synonym findClosest = "(key \<Rightarrow> LayoutInfo option) \<Rightarrow> Rect \<Rightarrow> Rect \<Rightarrow> LayoutInfo option"

definition getClosestRight :: "findClosest \<Rightarrow> Layout \<Rightarrow> key \<Rightarrow> error + key option" where
  "getClosestRight fc s k =
     (case getLayoutInfo s k of None \<Rightarrow> Inl TypeError | Some layoutInfo \<Rightarrow>
      case horizontalSpacing s of None \<Rightarrow> Inl NonFinite | Some hs \<Rightarrow>
        (let rect = \<lparr>rect_x = maxX (li_rect layoutInfo) + 1, rect_y = rect_y (li_rect layoutInfo),
                     rect_width = rect_width (li_rect layoutInfo) + hs,
                     rect_height = rect_height (li_rect layoutInfo)\<rparr>;
             k1 = map_option li_key (fc (cache_get s) (li_rect layoutInfo) rect)
         in if noKey k1 then
              (let rect2 = \<lparr>rect_x = maxX (li_rect layoutInfo) + 1, rect_y = 0,
                            rect_width = rect_width (li_rect layoutInfo) + hs,
                            rect_height = size_height (v_contentSize (virtualizer s))\<rparr>
               in Inr (map_option li_key (fc (cache_get s) (li_rect layoutInfo) rect2)))
            else Inr k1))"

definition getClosestLeft :: "findClosest \<Rightarrow> Layout \<Rightarrow> key \<Rightarrow> error + key option" where
  "getClosestLeft fc s k =
     (case getLayoutInfo s k of None \<Rightarrow> Inl TypeError | Some layoutInfo \<Rightarrow>
      case horizontalSpacing s of None \<Rightarrow> Inl NonFinite | Some hs \<Rightarrow>
        (let rect = \<lparr>rect_x = rect_x (li_rect layoutInfo) - rect_width (li_rect layoutInfo) - hs - 1,
                     rect_y = rect_y (li_rect layoutInfo),
                     rect_width = rect_width (li_rect layoutInfo) + hs,
                     rect_height = rect_height (li_rect layoutInfo)\<rparr>;
             k1 = map_option li_key (fc (cache_get s) (li_rect layoutInfo) rect)
         in if noKey k1 then
              (let rect2 = \<lparr>rect_x = rect_x (li_rect layoutInfo) - rect_width (li_rect layoutInfo) - hs - 1,
                            rect_y = 0,
                            rect_width = rect_width (li_rect layoutInfo) + hs,
                            rect_height = size_height (v_contentSize (virtualizer s))\<rparr>
               in Inr (map_option li_key (fc (cache_get s) (li_rect layoutInfo) rect2)))
            else Inr k1))"

definition getKeyRightOf :: "findClosest \<Rightarrow> Layout \<Rightarrow> key \<Rightarrow> error + key option" where
  "getKeyRightOf fc s k =
     (if direction s = RTL then getClosestLeft fc s k else getClosestRight fc s k)"

definition getKeyLeftOf :: "findClosest \<Rightarrow> Layout \<Rightarrow> key \<Rightarrow> error + key option" where
  "getKeyLeftOf fc s k =
     (if direction s = RTL then getClosestRight fc s k else getClosestLeft fc s k)"

subsection \<open>Predicates for the proofs\<close>

text \<open>
  \<open>cacheOnly s s'\<close>: the two layouts differ at most in the cache, its entries and the
  content size. \<open>entryAt s k li\<close>: the cache of \<open>s\<close> has the entry \<open>li\<close> for the key
  \<open>k\<close>, at a reference that is in use.
\<close>

definition cacheOnly :: "Layout \<Rightarrow> Layout \<Rightarrow> bool" where
  "cacheOnly s s' = (s' = s\<lparr>layoutInfos := layoutInfos s', heap := heap s', nextRef := nextRef s',
                             contentSize := contentSize s'\<rparr>)"

definition entryAt :: "Layout \<Rightarrow> key \<Rightarrow> LayoutInfo \<Rightarrow> bool" where
  "entryAt s k li = (case layoutInfos s k of None \<Rightarrow> False | Some r \<Rightarrow> r < nextRef s \<and> heap s r = li)"

definition itemEntry :: "Node \<Rightarrow> Rect \<Rightarrow> bool \<Rightarrow> LayoutInfo" where
  "itemEntry node rect est =
     (new_LayoutInfo (node_type node) (node_key node) rect)\<lparr>estimatedSize := est\<rparr>"

definition inColumnRange :: "real \<Rightarrow> bound \<Rightarrow> bool" where
  "inColumnRange n b = (1 \<le> n \<and> (case b of Infinity \<Rightarrow> True | Finite m \<Rightarrow> n \<le> m))"

subsection \<open>Example layouts\<close>

text \<open>
  Concrete layouts for the examples: cards without and photos with an intrinsic size; a new
  layout with the default options over a viewport 600 high; the four cards \<open>a\<close> to \<open>d\<close>
  after their first validation (\<open>laidOut\<close>), and then with \<open>d\<close> replaced by \<open>e\<close> in the
  collection of the virtualizer (\<open>cardReplaced\<close>, and \<open>rebuilt\<close> after the build pass alone);
  an empty collection after its first validation (\<open>emptyShown\<close>) and after a second one
  that finds it loading (\<open>emptyLoading\<close>); a loading layout; a layout whose options ask for
  at most three columns; and two stand-ins for \<^verbatim>\<open>_findClosest\<close>, one that finds
  nothing and one that takes the first entry among given keys that meets the probe
  rectangle. \<open>inColumnRange n b\<close> above says that \<open>n\<close> is in the interval \<open>[1, b]\<close> of the
  specification.
\<close>

definition plainCard :: "string \<Rightarrow> Node" where
  "plainCard name = \<lparr>node_type = ''item'', node_key = KString name,
     node_props = \<lparr>props_width = None, props_height = None\<rparr>\<rparr>"

definition defaults :: WaterfallLayoutOptions where
  "defaults = \<lparr>opt_minItemSize = None, opt_maxItemSize = None, opt_minSpace = None,
     opt_maxColumns = None, opt_itemPadding = None\<rparr>"

definition view :: "real \<Rightarrow> real \<Rightarrow> Collection \<Rightarrow> Virtualizer" where
  "view w h c = \<lparr>visibleRect = \<lparr>rect_x = 0, rect_y = 0, rect_width = w, rect_height = h\<rparr>,
     v_collection = c, v_contentSize = \<lparr>size_width = w, size_height = h\<rparr>\<rparr>"

definition cappedAtThree :: "real \<Rightarrow> Layout" where
  "cappedAtThree w =
     WaterfallLayout (defaults\<lparr>opt_maxColumns := Some (Finite 3)\<rparr>) False LTR (view w 600 [])"

definition noChange :: InvalidationContext where
  "noChange = \<lparr>sizeChanged = False\<rparr>"

definition freshLayout :: "real \<Rightarrow> Collection \<Rightarrow> Layout" where
  "freshLayout w c = WaterfallLayout defaults False LTR (view w 600 c)"

definition fourCards :: Collection where
  "fourCards = [plainCard ''a'', plainCard ''b'', plainCard ''c'', plainCard ''d'']"

definition laidOut :: Layout where
  "laidOut = projr (validate noChange (freshLayout 800 fourCards))"

definition findNothing :: findClosest where
  "findNothing cache target rect = None"

definition intersects :: "Rect \<Rightarrow> Rect \<Rightarrow> bool" where
  "intersects a b = (rect_x a \<le> maxX b \<and> rect_x b \<le> maxX a \<and> rect_y a \<le> maxY b \<and> rect_y b \<le> maxY a)"

definition findAmong :: "key list \<Rightarrow> findClosest" where
  "findAmong ks cache target rect =
     find (\<lambda>li. intersects (li_rect li) rect) (List.map_filter cache ks)"

definition photo :: "string \<Rightarrow> real \<Rightarrow> real \<Rightarrow> Node" where
  "photo name w h = \<lparr>node_type = ''item'', node_key = KString name,
     node_props = \<lparr>props_width = Some w, props_height = Some h\<rparr>\<rparr>"

definition emptyShown :: Layout where
  "emptyShown = projr (validate noChange (freshLayout 800 []))"

definition emptyLoading :: Layout where
  "emptyLoading = projr (validate noChange (emptyShown\<lparr>isLoading := True\<rparr>))"



definition loadingLayout :: "real \<Rightarrow> Collection \<Rightarrow> Layout" where
  "loadingLayout h c = (WaterfallLayout defaults True LTR (view 800 h c))\<lparr>collection := c\<rparr>"

section \<open>Properties of the program\<close>

subsection \<open>What the build pass leaves alone, and that it returns\<close>

text \<open>
  The loop over the nodes, the loader and the placeholder change the cache, its entries and
  the content size, and nothing else. The height of an item is always a number, so the loop
  never fails, and a build returns as soon as the number of columns is a valid array length.
\<close>

lemma cacheOnly_refl: "cacheOnly s s"
  by (simp add: cacheOnly_def)

lemma cacheOnly_trans: "cacheOnly s t \<Longrightarrow> cacheOnly t u \<Longrightarrow> cacheOnly s u"
  by (cases s, cases t, cases u) (simp add: cacheOnly_def)

lemma cacheOnly_fields:
  assumes "cacheOnly s s'"
  shows "minItemSize s' = minItemSize s" "maxItemSize s' = maxItemSize s" "margin s' = margin s"
    "minSpace s' = minSpace s" "maxColumns s' = maxColumns s" "itemPadding s' = itemPadding s"
    "numColumns s' = numColumns s" "itemWidth s' = itemWidth s"
    "horizontalSpacing s' = horizontalSpacing s" "collection s' = collection s"
    "lastCollection s' = lastCollection s"
    "isLoading s' = isLoading s" "direction s' = direction s" "virtualizer s' = virtualizer s"
  using assms by (cases s, cases s', simp add: cacheOnly_def)+

lemma computeHeight_total: "\<exists>h est. computeHeight ic s iw node = Inr (h, est)"
  by (cases "props_height (node_props node)")
     (auto simp: computeHeight_def js_div_def Let_def split: option.splits)

lemma layoutNode_cacheOnly:
  "layoutNode ic iw hs node (cols, s) = Inr (cols', s') \<Longrightarrow> cacheOnly s s' \<and> length cols' = length cols"
  by (auto simp: layoutNode_def alloc_def cache_set_def cacheOnly_def Let_def split: sum.splits prod.splits)

lemma layoutNode_total: "\<exists>cols' s'. layoutNode ic iw hs node (cols, s) = Inr (cols', s')"
  using computeHeight_total [of ic s iw node]
  by (auto simp: layoutNode_def alloc_def Let_def split: prod.splits)

lemma layoutNodes_total: "\<exists>cols' s'. layoutNodes ic iw hs nodes (cols, s) = Inr (cols', s')"
proof (induction nodes arbitrary: cols s)
  case Nil
  show ?case by simp
next
  case (Cons node nodes)
  obtain c1 s1 where "layoutNode ic iw hs node (cols, s) = Inr (c1, s1)"
    using layoutNode_total by blast
  with Cons.IH [of c1 s1] show ?case by simp
qed

lemma layoutNodes_cacheOnly:
  "layoutNodes ic iw hs nodes (cols, s) = Inr (cols', s') \<Longrightarrow> cacheOnly s s' \<and> length cols' = length cols"
proof (induction nodes arbitrary: cols s)
  case Nil
  then show ?case by (simp add: cacheOnly_refl)
next
  case (Cons node nodes)
  obtain c1 s1 where step: "layoutNode ic iw hs node (cols, s) = Inr (c1, s1)"
    using layoutNode_total by blast
  with Cons.prems have rest: "layoutNodes ic iw hs nodes (c1, s1) = Inr (cols', s')" by simp
  from layoutNode_cacheOnly [OF step] Cons.IH [OF rest] show ?case
    by (auto intro: cacheOnly_trans)
qed


lemma Math_max_None: "(Math_max xs = None) = (xs = [])"
  by (cases xs) (auto split: option.splits)

lemma computeNumColumns_ge1: "computeNumColumns s = Inr nc \<Longrightarrow> 1 \<le> nc"
  by (auto simp: computeNumColumns_def Let_def split: sum.splits)

lemma layoutItems_result:
  assumes "layoutItems ic s = Inr (cols, s1)"
  shows "\<exists>nc iw hs. computeNumColumns s = Inr nc \<and> computeItemWidth s nc = Inr iw \<and>
           computeHorizontalSpacing s nc iw = Inr hs \<and>
           Array_fill nc (margin s) = Inr (replicate (nat \<lfloor>nc\<rfloor>) (margin s)) \<and>
           layoutNodes ic iw hs (collection s)
             (replicate (nat \<lfloor>nc\<rfloor>) (margin s),
              s\<lparr>numColumns := nc, itemWidth := iw, horizontalSpacing := Some hs\<rparr>) = Inr (cols, s1)"
  using assms by (auto simp: layoutItems_def Array_fill_def split: sum.splits if_splits)

lemma layoutItems_fields:
  assumes "layoutItems ic s = Inr (cols, s1)"
  shows "minItemSize s1 = minItemSize s" "maxItemSize s1 = maxItemSize s" "margin s1 = margin s"
    "minSpace s1 = minSpace s" "maxColumns s1 = maxColumns s" "itemPadding s1 = itemPadding s"
    "collection s1 = collection s" "lastCollection s1 = lastCollection s"
    "isLoading s1 = isLoading s" "direction s1 = direction s" "virtualizer s1 = virtualizer s"
    "computeNumColumns s = Inr (numColumns s1)" "cols \<noteq> []"
proof -
  from layoutItems_result [OF assms] obtain nc iw hs where
    nc: "computeNumColumns s = Inr nc" and
    fill: "Array_fill nc (margin s) = Inr (replicate (nat \<lfloor>nc\<rfloor>) (margin s))" and
    loop: "layoutNodes ic iw hs (collection s)
             (replicate (nat \<lfloor>nc\<rfloor>) (margin s),
              s\<lparr>numColumns := nc, itemWidth := iw, horizontalSpacing := Some hs\<rparr>) = Inr (cols, s1)"
    by blast
  from layoutNodes_cacheOnly [OF loop]
  have co: "cacheOnly (s\<lparr>numColumns := nc, itemWidth := iw, horizontalSpacing := Some hs\<rparr>) s1"
    and len: "length cols = nat \<lfloor>nc\<rfloor>" by simp_all
  from cacheOnly_fields [OF co]
  show "minItemSize s1 = minItemSize s" "maxItemSize s1 = maxItemSize s" "margin s1 = margin s"
    "minSpace s1 = minSpace s" "maxColumns s1 = maxColumns s" "itemPadding s1 = itemPadding s"
    "collection s1 = collection s" "lastCollection s1 = lastCollection s"
    "isLoading s1 = isLoading s" "direction s1 = direction s" "virtualizer s1 = virtualizer s"
    by simp_all
  from cacheOnly_fields(7) [OF co] nc show "computeNumColumns s = Inr (numColumns s1)" by simp
  from computeNumColumns_ge1 [OF nc] have "1 \<le> \<lfloor>nc\<rfloor>" by linarith
  with len show "cols \<noteq> []" by auto
qed

lemma addLoader_cacheOnly: "addLoader y s = (y', s') \<Longrightarrow> cacheOnly s s'"
  by (auto simp: addLoader_def alloc_def cache_set_def cacheOnly_def Let_def split: if_splits)

lemma addPlaceholder_cacheOnly: "addPlaceholder y s = (y', s') \<Longrightarrow> cacheOnly s s'"
  by (auto simp: addPlaceholder_def alloc_def cache_set_def cacheOnly_def Let_def split: if_splits)

lemma finishBuild_cacheOnly: "finishBuild cols s = Inr s' \<Longrightarrow> cacheOnly s s'"
proof -
  assume fb: "finishBuild cols s = Inr s'"
  then obtain m where m: "Math_max cols = Some m"
    by (auto simp: finishBuild_def split: option.splits)
  define y where "y = map (\<lambda>_. m - size_height (minSpace s) + margin s) cols ! 0"
  obtain y1 s1 where l: "addLoader y s = (y1, s1)" by (cases "addLoader y s")
  obtain y2 s2 where p: "addPlaceholder y1 s1 = (y2, s2)" by (cases "addPlaceholder y1 s1")
  from fb m l p have s': "s' = s2\<lparr>contentSize := \<lparr>size_width = rect_width (visibleRect (virtualizer s2)),
                                     size_height = y2\<rparr>\<rparr>"
    by (simp add: finishBuild_def Let_def y_def)
  have "cacheOnly s s2"
    using addLoader_cacheOnly [OF l] addPlaceholder_cacheOnly [OF p] by (rule cacheOnly_trans)
  moreover have "cacheOnly s2 s'" by (simp add: s' cacheOnly_def)
  ultimately show ?thesis by (rule cacheOnly_trans)
qed

lemma buildCollection_parts:
  "buildCollection ic s = Inr s' \<Longrightarrow>
     \<exists>cols s1. layoutItems ic s = Inr (cols, s1) \<and> finishBuild cols s1 = Inr s'"
  by (auto simp: buildCollection_def split: sum.splits)

lemma buildCollection_total:
  assumes nc: "computeNumColumns s = Inr nc" and fill: "Array_fill nc (margin s) = Inr cols0"
  shows "\<exists>s'. buildCollection ic s = Inr s'"
proof -
  from computeNumColumns_ge1 [OF nc] have ge: "1 \<le> nc" .
  then obtain iw where iw: "computeItemWidth s nc = Inr iw"
    by (auto simp: computeItemWidth_def js_div_def Let_def)
  have "max 1 (nc - 1) \<noteq> 0" by (simp add: max_def)
  then obtain hs where hs: "computeHorizontalSpacing s nc iw = Inr hs"
    by (simp add: computeHorizontalSpacing_def js_div_def Let_def)
  obtain cols s1 where loop: "layoutNodes ic iw hs (collection s)
      (cols0, s\<lparr>numColumns := nc, itemWidth := iw, horizontalSpacing := Some hs\<rparr>) = Inr (cols, s1)"
    using layoutNodes_total by blast
  with nc iw hs fill have items: "layoutItems ic s = Inr (cols, s1)"
    by (simp add: layoutItems_def)
  from layoutItems_fields(13) [OF items] obtain m where "Math_max cols = Some m"
    using Math_max_None [of cols] by auto
  then obtain s' where "finishBuild cols s1 = Inr s'"
    by (simp add: finishBuild_def Let_def case_prod_beta)
  with items show ?thesis by (auto simp: buildCollection_def)
qed


subsection \<open>One turn of the loop\<close>

lemma computeHeight_square:
  assumes "layoutInfos s (node_key node) = None"
    and "\<not> (truthy (props_width (node_props node)) \<and> truthy (props_height (node_props node)))"
  shows "computeHeight ic s iw node = Inr (iw, True)"
  using assms by (auto simp: computeHeight_def cache_get_def)

lemma layoutNode_explicit:
  assumes "computeHeight ic s iw node = Inr (h, est)"
  shows "layoutNode ic iw hs node (cols, s) =
     Inr (cols[getNextColumnIndex cols := cols ! getNextColumnIndex cols + h + size_height (minSpace s)],
          s\<lparr>layoutInfos := (layoutInfos s)(node_key node \<mapsto> nextRef s),
            heap := (heap s)(nextRef s :=
              \<lparr>li_type = node_type node, li_key = node_key node,
                 li_rect = \<lparr>rect_x = margin s + real (getNextColumnIndex cols) * (iw + hs),
                            rect_y = cols ! getNextColumnIndex cols,
                            rect_width = iw, rect_height = h\<rparr>,
                 estimatedSize = est\<rparr>),
            nextRef := Suc (nextRef s)\<rparr>)"
  using assms by (simp add: layoutNode_def alloc_def cache_set_def new_LayoutInfo_def Let_def)

lemma metrics_800:
  assumes "minItemSize s = \<lparr>size_width = 240, size_height = 136\<rparr>"
    and "minSpace s = \<lparr>size_width = 24, size_height = 24\<rparr>"
    and "margin s = 24"
    and "rect_width (visibleRect (virtualizer s)) = 800"
    and "Math_min (maxColumns s) 3 = 3"
  shows "computeNumColumns s = Inr 3" "computeItemWidth s 3 = Inr 240"
    "computeHorizontalSpacing s 3 240 = Inr 16" "Array_fill 3 (margin s) = Inr [24, 24, 24]"
proof -
  have f: "\<lfloor>800 / 264 :: real\<rfloor> = 3" by linarith
  show "computeNumColumns s = Inr 3"
    using assms f by (simp add: computeNumColumns_def js_div_def Math_floor_def)
  have r: "\<lfloor>704 / 3 + 1 / 2 :: real\<rfloor> = 235" by linarith
  have "Math_min b 235 \<le> 235" for b by (cases b) simp_all
  then have "max 240 (Math_min (max_width (maxItemSize s)) 235) = 240"
    by (smt (verit) max_def)
  then show "computeItemWidth s 3 = Inr 240"
    using assms r by (simp add: computeItemWidth_def js_div_def Math_round_def)
  show "computeHorizontalSpacing s 3 240 = Inr 16"
    using assms by (simp add: computeHorizontalSpacing_def js_div_def Math_round_def)
  show "Array_fill 3 (margin s) = Inr [24, 24, 24]"
    using assms by (simp add: Array_fill_def numeral_3_eq_3)
qed

lemma next_columns:
  "getNextColumnIndex [24, 24, 24] = 0" "getNextColumnIndex [288, 24, 24] = 1"
  "getNextColumnIndex [288, 288, 24] = 2" "getNextColumnIndex [288, 288, 288] = 0"
  by (simp_all add: getNextColumnIndex_def)


lemma entryAt_get: "entryAt s k li \<Longrightarrow> cache_get s k = Some li"
  by (auto simp: entryAt_def cache_get_def split: option.splits)

lemma layoutNode_infos:
  assumes "layoutNode ic iw hs node (cols, s) = Inr (cols', s')"
  shows "layoutInfos s' = (layoutInfos s)(node_key node \<mapsto> nextRef s)"
    and "nextRef s' = Suc (nextRef s)"
    and "r \<noteq> nextRef s \<Longrightarrow> heap s' r = heap s r"
  using assms
  by (auto simp: layoutNode_def alloc_def cache_set_def Let_def split: sum.splits prod.splits)

lemma layoutNode_keeps:
  assumes "layoutNode ic iw hs node (cols, s) = Inr (cols', s')"
    and "k \<noteq> node_key node" and "entryAt s k li"
  shows "entryAt s' k li"
  using assms(2,3) layoutNode_infos [OF assms(1)]
  by (auto simp: entryAt_def split: option.splits)

lemma layoutNode_square_step:
  assumes "layoutInfos s (node_key node) = None"
    and "\<not> (truthy (props_width (node_props node)) \<and> truthy (props_height (node_props node)))"
  shows "\<exists>s'. layoutNode ic iw hs node (cols, s) =
           Inr (cols[getNextColumnIndex cols :=
                       cols ! getNextColumnIndex cols + iw + size_height (minSpace s)], s') \<and>
         entryAt s' (node_key node)
           \<lparr>li_type = node_type node, li_key = node_key node,
              li_rect = \<lparr>rect_x = margin s + real (getNextColumnIndex cols) * (iw + hs),
                         rect_y = cols ! getNextColumnIndex cols,
                         rect_width = iw, rect_height = iw\<rparr>,
              estimatedSize = True\<rparr>"
  by (simp add: layoutNode_explicit [OF computeHeight_square [OF assms]] entryAt_def)

lemma layoutNodes_infos:
  assumes "layoutNodes ic iw hs nodes (cols, s) = Inr (cols', s')"
  shows "(layoutInfos s' k = None) = (layoutInfos s k = None \<and> k \<notin> node_key ` set nodes)"
  using assms
proof (induction nodes arbitrary: cols s)
  case Nil
  then show ?case by simp
next
  case (Cons node nodes)
  obtain c1 s1 where step: "layoutNode ic iw hs node (cols, s) = Inr (c1, s1)"
    using layoutNode_total by blast
  with Cons.prems have rest: "layoutNodes ic iw hs nodes (c1, s1) = Inr (cols', s')" by simp
  from Cons.IH [OF rest] layoutNode_infos(1) [OF step] show ?case by auto
qed


subsection \<open>The keys and entries after the loop, the loader and the placeholder\<close>

lemma addLoader_infos:
  assumes "addLoader y s = (y', s')"
  shows "(layoutInfos s' k = None) = (layoutInfos s k = None \<and> \<not> (isLoading s \<and> k = KString ''loader''))"
  using assms by (auto simp: addLoader_def alloc_def cache_set_def Let_def split: if_splits)

lemma addLoader_keeps:
  assumes "addLoader y s = (y', s')" and "entryAt s k li"
    and "\<not> (isLoading s \<and> k = KString ''loader'')"
  shows "entryAt s' k li"
  using assms
  by (auto simp: addLoader_def alloc_def cache_set_def entryAt_def Let_def split: if_splits option.splits)

lemma addPlaceholder_infos:
  assumes "addPlaceholder y s = (y', s')"
  shows "(layoutInfos s' k = None) =
         (layoutInfos s k = None \<and> \<not> (collection s = [] \<and> \<not> isLoading s \<and> k = KString ''placeholder''))"
  using assms by (auto simp: addPlaceholder_def alloc_def cache_set_def Let_def split: if_splits)

lemma addPlaceholder_keeps:
  assumes "addPlaceholder y s = (y', s')" and "entryAt s k li"
    and "\<not> (collection s = [] \<and> \<not> isLoading s \<and> k = KString ''placeholder'')"
  shows "entryAt s' k li"
  using assms
  by (auto simp: addPlaceholder_def alloc_def cache_set_def entryAt_def Let_def split: if_splits option.splits)

lemma finishBuild_parts:
  assumes "finishBuild cols s = Inr s'"
  shows "\<exists>m y1 s1 y2 s2. Math_max cols = Some m \<and>
           addLoader (m - size_height (minSpace s) + margin s) s = (y1, s1) \<and>
           addPlaceholder y1 s1 = (y2, s2) \<and>
           s' = s2\<lparr>contentSize := \<lparr>size_width = rect_width (visibleRect (virtualizer s2)),
                                     size_height = y2\<rparr>\<rparr>"
proof -
  from assms obtain m where m: "Math_max cols = Some m"
    by (auto simp: finishBuild_def split: option.splits)
  then have "cols \<noteq> []" using Math_max_None [of cols] by auto
  then have y: "map (\<lambda>_. m - size_height (minSpace s) + margin s) cols ! 0
                 = m - size_height (minSpace s) + margin s"
    by (cases cols) simp_all
  obtain y1 s1 where l: "addLoader (m - size_height (minSpace s) + margin s) s = (y1, s1)"
    by (cases "addLoader (m - size_height (minSpace s) + margin s) s")
  obtain y2 s2 where p: "addPlaceholder y1 s1 = (y2, s2)" by (cases "addPlaceholder y1 s1")
  from assms m l p y show ?thesis by (simp add: finishBuild_def Let_def)
qed

lemma finishBuild_infos:
  assumes "finishBuild cols s = Inr s'"
  shows "(layoutInfos s' k = None) =
         (layoutInfos s k = None \<and> \<not> (isLoading s \<and> k = KString ''loader'') \<and>
          \<not> (collection s = [] \<and> \<not> isLoading s \<and> k = KString ''placeholder''))"
proof -
  from finishBuild_parts [OF assms] obtain m y1 s1 y2 s2 where
    l: "addLoader (m - size_height (minSpace s) + margin s) s = (y1, s1)" and
    p: "addPlaceholder y1 s1 = (y2, s2)" and
    s': "s' = s2\<lparr>contentSize := \<lparr>size_width = rect_width (visibleRect (virtualizer s2)),
                                     size_height = y2\<rparr>\<rparr>"
    by blast
  from cacheOnly_fields [OF addLoader_cacheOnly [OF l]]
  have "collection s1 = collection s" "isLoading s1 = isLoading s" by simp_all
  with addLoader_infos [OF l, of k] addPlaceholder_infos [OF p, of k] s' show ?thesis by auto
qed

lemma finishBuild_keeps:
  assumes "finishBuild cols s = Inr s'" and "entryAt s k li"
    and "\<not> (isLoading s \<and> k = KString ''loader'')"
    and "\<not> (collection s = [] \<and> \<not> isLoading s \<and> k = KString ''placeholder'')"
  shows "entryAt s' k li"
proof -
  from finishBuild_parts [OF assms(1)] obtain m y1 s1 y2 s2 where
    l: "addLoader (m - size_height (minSpace s) + margin s) s = (y1, s1)" and
    p: "addPlaceholder y1 s1 = (y2, s2)" and
    s': "s' = s2\<lparr>contentSize := \<lparr>size_width = rect_width (visibleRect (virtualizer s2)),
                                     size_height = y2\<rparr>\<rparr>"
    by blast
  from cacheOnly_fields [OF addLoader_cacheOnly [OF l]]
  have same: "collection s1 = collection s" "isLoading s1 = isLoading s" by simp_all
  from addLoader_keeps [OF l assms(2,3)] have "entryAt s1 k li" .
  from addPlaceholder_keeps [OF p this] same assms(4) have "entryAt s2 k li" by simp
  then show ?thesis by (simp add: s' entryAt_def split: option.splits)
qed

subsection \<open>The number of columns\<close>

lemma buildCollection_numColumns:
  assumes "buildCollection ic s = Inr s'"
  shows "computeNumColumns s = Inr (numColumns s')"
proof -
  from buildCollection_parts [OF assms] obtain cols s1 where
    items: "layoutItems ic s = Inr (cols, s1)" and fin: "finishBuild cols s1 = Inr s'" by blast
  from cacheOnly_fields(7) [OF finishBuild_cacheOnly [OF fin]] layoutItems_fields(12) [OF items]
  show ?thesis by simp
qed

lemma Math_min_le: "Math_min b x \<le> x"
  by (cases b) simp_all

lemma Math_min_mono: "x \<le> y \<Longrightarrow> Math_min b x \<le> Math_min b y"
  by (cases b) (simp_all add: min_def)

lemma computeNumColumns_mono:
  assumes s: "computeNumColumns s = Inr m" and t: "computeNumColumns t = Inr n"
    and cfg: "minItemSize t = minItemSize s" "minSpace t = minSpace s" "maxColumns t = maxColumns s"
    and le: "rect_width (visibleRect (virtualizer s)) \<le> rect_width (visibleRect (virtualizer t))"
    and pos: "0 < size_width (minItemSize s) + size_width (minSpace s)
              \<or> 0 \<le> rect_width (visibleRect (virtualizer s))"
  shows "m \<le> n"
proof -
  define d where "d = size_width (minItemSize s) + size_width (minSpace s)"
  define v where "v = rect_width (visibleRect (virtualizer s))"
  define w where "w = rect_width (visibleRect (virtualizer t))"
  from s have d0: "d \<noteq> 0"
    by (auto simp: computeNumColumns_def js_div_def d_def split: if_splits)
  from s d0 have m: "m = max 1 (Math_min (maxColumns s) (Math_floor (v / d)))"
    by (auto simp: computeNumColumns_def js_div_def d_def v_def)
  from t d0 cfg have n: "n = max 1 (Math_min (maxColumns s) (Math_floor (w / d)))"
    by (auto simp: computeNumColumns_def js_div_def d_def w_def)
  from le have vw: "v \<le> w" by (simp add: v_def w_def)
  show ?thesis
  proof (cases "0 < d")
    case True
    with vw have "v / d \<le> w / d" by (simp add: divide_right_mono)
    then have "Math_floor (v / d) \<le> Math_floor (w / d)"
      by (simp add: Math_floor_def floor_mono)
    then show ?thesis unfolding m n by (intro max.mono Math_min_mono) simp_all
  next
    case False
    with d0 pos have neg: "d < 0" and v0: "0 \<le> v" by (auto simp: d_def v_def)
    with vw have "v / d \<le> 0" "w / d \<le> 0" by (simp_all add: divide_nonneg_neg)
    then have "Math_floor (v / d) \<le> 0" "Math_floor (w / d) \<le> 0"
      by (simp_all add: Math_floor_def)
    with Math_min_le [of "maxColumns s" "Math_floor (v / d)"]
         Math_min_le [of "maxColumns s" "Math_floor (w / d)"]
    show ?thesis unfolding m n by simp
  qed
qed

lemma computeNumColumns_bounds:
  assumes "computeNumColumns s = Inr n"
  shows "1 \<le> n" and "case maxColumns s of Infinity \<Rightarrow> True | Finite m \<Rightarrow> n \<le> max 1 m"
  using assms
  by (auto simp: computeNumColumns_def Let_def split: sum.splits bound.splits)

lemma computeNumColumns_returns:
  assumes "size_width (minItemSize s) + size_width (minSpace s) \<noteq> 0"
  shows "\<exists>n. computeNumColumns s = Inr n"
  using assms by (simp add: computeNumColumns_def js_div_def)

lemma inColumnRange_from_bounds:
  assumes "inColumnRange 1 b" and "1 \<le> n" and "case b of Infinity \<Rightarrow> True | Finite m \<Rightarrow> n \<le> max 1 m"
  shows "inColumnRange n b"
  using assms by (cases b) (simp_all add: inColumnRange_def max_def)

subsection \<open>The deletion and the whole validation\<close>

lemma getItem_None: "(getItem c k = None) = (k \<notin> node_key ` set c)"
  by (auto simp: getItem_def find_None_iff)

lemma deleteMissingKeys_props:
  "cacheOnly s (deleteMissingKeys ks s) \<and>
   heap (deleteMissingKeys ks s) = heap s \<and> nextRef (deleteMissingKeys ks s) = nextRef s \<and>
   layoutInfos (deleteMissingKeys ks s) k =
     (if k \<in> set ks \<and> getItem (collection s) k = None then None else layoutInfos s k)"
proof (induction ks arbitrary: s)
  case Nil
  show ?case by (simp add: cacheOnly_refl)
next
  case (Cons a ks)
  define t where "t = (if getItem (collection s) a = None then cache_delete a s else s)"
  have st: "cacheOnly s t" "heap t = heap s" "nextRef t = nextRef s" "collection t = collection s"
    "layoutInfos t k = (if k = a \<and> getItem (collection s) a = None then None else layoutInfos s k)"
    by (simp_all add: t_def cache_delete_def cacheOnly_def)
  from Cons.IH [of t] st show ?case
    by (auto simp: t_def [symmetric] intro: cacheOnly_trans)
qed

lemma removeMissing_props:
  "cacheOnly s (removeMissing lc s) \<and>
   heap (removeMissing lc s) = heap s \<and> nextRef (removeMissing lc s) = nextRef s \<and>
   layoutInfos (removeMissing lc s) k =
     (if (k \<in> set (getKeys lc) \<and> getItem (collection s) k = None)
         \<or> (\<not> isLoading s \<and> k = KString ''loader'')
         \<or> (collection s \<noteq> [] \<and> k = KString ''placeholder'')
      then None else layoutInfos s k)"
proof -
  define s1 where "s1 = deleteMissingKeys (getKeys lc) s"
  define s2 where "s2 = (if \<not> isLoading s1 then cache_delete (KString ''loader'') s1 else s1)"
  note p1 = deleteMissingKeys_props [of s "getKeys lc" k, folded s1_def]
  from p1 have co1: "cacheOnly s s1" by simp
  note f1 = cacheOnly_fields [OF co1]
  have p2: "cacheOnly s1 s2" "heap s2 = heap s1" "nextRef s2 = nextRef s1"
    "layoutInfos s2 k = (if \<not> isLoading s1 \<and> k = KString ''loader'' then None else layoutInfos s1 k)"
    by (simp_all add: s2_def cache_delete_def cacheOnly_def)
  note f2 = cacheOnly_fields [OF p2(1)]
  have r: "removeMissing lc s =
             (if length (collection s2) > 0 then cache_delete (KString ''placeholder'') s2 else s2)"
    by (simp add: removeMissing_def s1_def s2_def Let_def)
  have p3: "cacheOnly s2 (removeMissing lc s)" "heap (removeMissing lc s) = heap s2"
    "nextRef (removeMissing lc s) = nextRef s2"
    "layoutInfos (removeMissing lc s) k =
       (if collection s2 \<noteq> [] \<and> k = KString ''placeholder'' then None else layoutInfos s2 k)"
    by (simp_all add: r cache_delete_def cacheOnly_def)
  have "cacheOnly s (removeMissing lc s)"
    using co1 p2(1) p3(1) by (blast intro: cacheOnly_trans)
  moreover have "heap (removeMissing lc s) = heap s" "nextRef (removeMissing lc s) = nextRef s"
    using p1 p2 p3 by simp_all
  moreover have "layoutInfos (removeMissing lc s) k =
     (if (k \<in> set (getKeys lc) \<and> getItem (collection s) k = None)
         \<or> (\<not> isLoading s \<and> k = KString ''loader'')
         \<or> (collection s \<noteq> [] \<and> k = KString ''placeholder'')
      then None else layoutInfos s k)"
    using p1 p2(4) p3(4) f1(10,12) f2(10) by auto
  ultimately show ?thesis by simp
qed

lemma buildCollection_fields:
  assumes "buildCollection ic s = Inr s'"
  shows "minItemSize s' = minItemSize s" "maxItemSize s' = maxItemSize s" "margin s' = margin s"
    "minSpace s' = minSpace s" "maxColumns s' = maxColumns s" "itemPadding s' = itemPadding s"
    "collection s' = collection s" "lastCollection s' = lastCollection s"
    "isLoading s' = isLoading s" "direction s' = direction s" "virtualizer s' = virtualizer s"
proof -
  from buildCollection_parts [OF assms] obtain cols s1 where
    items: "layoutItems ic s = Inr (cols, s1)" and fin: "finishBuild cols s1 = Inr s'" by blast
  note a = layoutItems_fields [OF items]
  note b = cacheOnly_fields [OF finishBuild_cacheOnly [OF fin]]
  show "minItemSize s' = minItemSize s" "maxItemSize s' = maxItemSize s" "margin s' = margin s"
    "minSpace s' = minSpace s" "maxColumns s' = maxColumns s" "itemPadding s' = itemPadding s"
    "collection s' = collection s" "lastCollection s' = lastCollection s"
    "isLoading s' = isLoading s" "direction s' = direction s" "virtualizer s' = virtualizer s"
    using a b by simp_all
qed

lemma buildCollection_infos:
  assumes "buildCollection ic s = Inr s'"
  shows "(layoutInfos s' k = None) =
         (layoutInfos s k = None \<and> k \<notin> node_key ` set (collection s) \<and>
          \<not> (isLoading s \<and> k = KString ''loader'') \<and>
          \<not> (collection s = [] \<and> \<not> isLoading s \<and> k = KString ''placeholder''))"
proof -
  from buildCollection_parts [OF assms] obtain cols s1 where
    items: "layoutItems ic s = Inr (cols, s1)" and fin: "finishBuild cols s1 = Inr s'" by blast
  from layoutItems_result [OF items] obtain nc iw hs where
    loop: "layoutNodes ic iw hs (collection s)
             (replicate (nat \<lfloor>nc\<rfloor>) (margin s),
              s\<lparr>numColumns := nc, itemWidth := iw, horizontalSpacing := Some hs\<rparr>) = Inr (cols, s1)"
    by blast
  note a = layoutItems_fields [OF items]
  from layoutNodes_infos [OF loop, of k] finishBuild_infos [OF fin, of k] a(7,9)
  show ?thesis by auto
qed

lemma validate_parts:
  assumes "validate ic s = Inr s'"
  shows "\<exists>b. buildCollection ic (s\<lparr>collection := v_collection (virtualizer s)\<rparr>) = Inr b \<and>
           s' = (case lastCollection s of None \<Rightarrow> b | Some lc \<Rightarrow> removeMissing lc b)
                  \<lparr>lastCollection := Some (v_collection (virtualizer s))\<rparr>"
proof -
  from assms obtain b where
    b: "buildCollection ic (s\<lparr>collection := v_collection (virtualizer s)\<rparr>) = Inr b"
    by (auto simp: validate_def split: sum.splits)
  note f = buildCollection_fields [OF b]
  define s2 where "s2 = (case lastCollection s of None \<Rightarrow> b | Some lc \<Rightarrow> removeMissing lc b)"
  have "cacheOnly b s2"
    by (cases "lastCollection s") (simp_all add: s2_def cacheOnly_refl removeMissing_props)
  from cacheOnly_fields(10) [OF this] f(7) have "collection s2 = v_collection (virtualizer s)"
    by simp
  with assms b f(8) show ?thesis
    by (auto simp: validate_def Let_def s2_def)
qed

lemma validate_total:
  assumes "computeNumColumns s = Inr nc" and "Array_fill nc (margin s) = Inr cols0"
  shows "\<exists>s'. validate ic s = Inr s'"
proof -
  have "computeNumColumns (s\<lparr>collection := v_collection (virtualizer s)\<rparr>) = Inr nc"
    using assms(1) by (simp add: computeNumColumns_def cong: sum.case_cong)
  from buildCollection_total [OF this, of cols0 ic] assms(2) show ?thesis
    by (auto simp: validate_def Let_def)
qed

subsection \<open>Four items without intrinsic size in a viewport of width 800\<close>

lemma square_step:
  assumes fresh: "layoutInfos s (node_key node) = None"
    and square: "\<not> (truthy (props_width (node_props node)) \<and> truthy (props_height (node_props node)))"
  obtains s' where
    "layoutNode ic iw hs node (cols, s) =
       Inr (cols[getNextColumnIndex cols :=
                   cols ! getNextColumnIndex cols + iw + size_height (minSpace s)], s')"
    "entryAt s' (node_key node)
       \<lparr>li_type = node_type node, li_key = node_key node,
          li_rect = \<lparr>rect_x = margin s + real (getNextColumnIndex cols) * (iw + hs),
                     rect_y = cols ! getNextColumnIndex cols,
                     rect_width = iw, rect_height = iw\<rparr>,
          estimatedSize = True\<rparr>"
    "cacheOnly s s'"
    "\<And>k. k \<noteq> node_key node \<Longrightarrow> layoutInfos s' k = layoutInfos s k"
    "\<And>k li. k \<noteq> node_key node \<Longrightarrow> entryAt s k li \<Longrightarrow> entryAt s' k li"
proof -
  from layoutNode_square_step [OF fresh square, of ic iw hs cols] obtain s' where
    step: "layoutNode ic iw hs node (cols, s) =
       Inr (cols[getNextColumnIndex cols :=
                   cols ! getNextColumnIndex cols + iw + size_height (minSpace s)], s')"
    and entry: "entryAt s' (node_key node)
       \<lparr>li_type = node_type node, li_key = node_key node,
          li_rect = \<lparr>rect_x = margin s + real (getNextColumnIndex cols) * (iw + hs),
                     rect_y = cols ! getNextColumnIndex cols,
                     rect_width = iw, rect_height = iw\<rparr>,
          estimatedSize = True\<rparr>"
    by blast
  from layoutNode_cacheOnly [OF step] have co: "cacheOnly s s'" by simp
  have other: "layoutInfos s' k = layoutInfos s k" if "k \<noteq> node_key node" for k
    using layoutNode_infos(1) [OF step] that by simp
  have keeps: "entryAt s' k li" if "k \<noteq> node_key node" "entryAt s k li" for k li
    using layoutNode_keeps [OF step that] .
  from step entry co other keeps show thesis by (rule that)
qed

lemma four_square_items:
  assumes cfg: "minItemSize s = \<lparr>size_width = 240, size_height = 136\<rparr>"
      "minSpace s = \<lparr>size_width = 24, size_height = 24\<rparr>"
      "margin s = 24"
      "rect_width (visibleRect (virtualizer s)) = 800"
      "Math_min (maxColumns s) 3 = 3"
    and coll: "collection s = [n1, n2, n3, n4]"
    and dist: "distinct [node_key n1, node_key n2, node_key n3, node_key n4]"
    and new: "\<forall>n \<in> set [n1, n2, n3, n4]. layoutInfos s (node_key n) = None \<and>
                \<not> (truthy (props_width (node_props n)) \<and> truthy (props_height (node_props n)))"
  shows "\<exists>s4. layoutItems ic s = Inr ([552, 288, 288], s4) \<and>
           numColumns s4 = 3 \<and> itemWidth s4 = 240 \<and> horizontalSpacing s4 = Some 16 \<and>
           entryAt s4 (node_key n1)
               (itemEntry n1 \<lparr>rect_x = 24, rect_y = 24, rect_width = 240, rect_height = 240\<rparr> True) \<and>
           entryAt s4 (node_key n2)
               (itemEntry n2 \<lparr>rect_x = 280, rect_y = 24, rect_width = 240, rect_height = 240\<rparr> True) \<and>
           entryAt s4 (node_key n3)
               (itemEntry n3 \<lparr>rect_x = 536, rect_y = 24, rect_width = 240, rect_height = 240\<rparr> True) \<and>
           entryAt s4 (node_key n4)
               (itemEntry n4 \<lparr>rect_x = 24, rect_y = 288, rect_width = 240, rect_height = 240\<rparr> True)"
proof -
  define s0 where "s0 = s\<lparr>numColumns := 3, itemWidth := 240, horizontalSpacing := Some 16\<rparr>"
  have s0: "layoutInfos s0 = layoutInfos s" "minSpace s0 = minSpace s" "margin s0 = margin s"
    "numColumns s0 = 3" "itemWidth s0 = 240" "horizontalSpacing s0 = Some 16"
    by (simp_all add: s0_def)
  from new have sq: "\<not> (truthy (props_width (node_props n1)) \<and> truthy (props_height (node_props n1)))"
    "\<not> (truthy (props_width (node_props n2)) \<and> truthy (props_height (node_props n2)))"
    "\<not> (truthy (props_width (node_props n3)) \<and> truthy (props_height (node_props n3)))"
    "\<not> (truthy (props_width (node_props n4)) \<and> truthy (props_height (node_props n4)))"
    and fr: "layoutInfos s (node_key n1) = None" "layoutInfos s (node_key n2) = None"
    "layoutInfos s (node_key n3) = None" "layoutInfos s (node_key n4) = None"
    by simp_all
  from dist have ne: "node_key n2 \<noteq> node_key n1" "node_key n3 \<noteq> node_key n1"
    "node_key n4 \<noteq> node_key n1" "node_key n3 \<noteq> node_key n2" "node_key n4 \<noteq> node_key n2"
    "node_key n4 \<noteq> node_key n3" "node_key n1 \<noteq> node_key n2" "node_key n1 \<noteq> node_key n3"
    "node_key n1 \<noteq> node_key n4" "node_key n2 \<noteq> node_key n3" "node_key n2 \<noteq> node_key n4"
    "node_key n3 \<noteq> node_key n4"
    by auto
  have f1: "layoutInfos s0 (node_key n1) = None" using fr s0 by simp
  obtain s1 where
    r1: "layoutNode ic 240 16 n1 ([24, 24, 24], s0) =
       Inr ([24, 24, 24][getNextColumnIndex [24, 24, 24] :=
              [24, 24, 24] ! getNextColumnIndex [24, 24, 24] + 240 + size_height (minSpace s0)], s1)"
    and q1: "entryAt s1 (node_key n1)
       \<lparr>li_type = node_type n1, li_key = node_key n1,
          li_rect = \<lparr>rect_x = margin s0 + real (getNextColumnIndex [24, 24, 24]) * (240 + 16),
                     rect_y = [24, 24, 24] ! getNextColumnIndex [24, 24, 24],
                     rect_width = 240, rect_height = 240\<rparr>,
          estimatedSize = True\<rparr>"
    and co1: "cacheOnly s0 s1"
    and o1: "\<And>k. k \<noteq> node_key n1 \<Longrightarrow> layoutInfos s1 k = layoutInfos s0 k"
    and k1: "\<And>k li. k \<noteq> node_key n1 \<Longrightarrow> entryAt s0 k li \<Longrightarrow> entryAt s1 k li"
    using square_step [OF f1 sq(1), of ic 240 16 "[24, 24, 24]"] by blast
  note c1 = cacheOnly_fields [OF co1]
  have st1: "layoutNode ic 240 16 n1 ([24, 24, 24], s0) = Inr ([288, 24, 24], s1)"
    using r1 by (simp add: next_columns(1) s0(2) cfg(2))
  have e1: "entryAt s1 (node_key n1)
      (itemEntry n1 \<lparr>rect_x = 24, rect_y = 24, rect_width = 240, rect_height = 240\<rparr> True)"
    using q1 by (simp add: itemEntry_def new_LayoutInfo_def next_columns(1) s0(3) cfg(3))
  have f2: "layoutInfos s1 (node_key n2) = None" using o1 [OF ne(1)] fr s0 by simp
  obtain s2 where
    r2: "layoutNode ic 240 16 n2 ([288, 24, 24], s1) =
       Inr ([288, 24, 24][getNextColumnIndex [288, 24, 24] :=
              [288, 24, 24] ! getNextColumnIndex [288, 24, 24] + 240 + size_height (minSpace s1)], s2)"
    and q2: "entryAt s2 (node_key n2)
       \<lparr>li_type = node_type n2, li_key = node_key n2,
          li_rect = \<lparr>rect_x = margin s1 + real (getNextColumnIndex [288, 24, 24]) * (240 + 16),
                     rect_y = [288, 24, 24] ! getNextColumnIndex [288, 24, 24],
                     rect_width = 240, rect_height = 240\<rparr>,
          estimatedSize = True\<rparr>"
    and co2: "cacheOnly s1 s2"
    and o2: "\<And>k. k \<noteq> node_key n2 \<Longrightarrow> layoutInfos s2 k = layoutInfos s1 k"
    and k2: "\<And>k li. k \<noteq> node_key n2 \<Longrightarrow> entryAt s1 k li \<Longrightarrow> entryAt s2 k li"
    using square_step [OF f2 sq(2), of ic 240 16 "[288, 24, 24]"] by blast
  note c2 = cacheOnly_fields [OF co2]
  have ms1: "size_height (minSpace s1) = 24" "margin s1 = 24" using c1 s0 cfg by simp_all
  have st2: "layoutNode ic 240 16 n2 ([288, 24, 24], s1) = Inr ([288, 288, 24], s2)"
    using r2 by (simp add: next_columns(2) ms1)
  have e2: "entryAt s2 (node_key n2)
      (itemEntry n2 \<lparr>rect_x = 280, rect_y = 24, rect_width = 240, rect_height = 240\<rparr> True)"
    using q2 by (simp add: itemEntry_def new_LayoutInfo_def next_columns(2) ms1)
  have f3: "layoutInfos s2 (node_key n3) = None" using o2 [OF ne(4)] o1 [OF ne(2)] fr s0 by simp
  obtain s3 where
    r3: "layoutNode ic 240 16 n3 ([288, 288, 24], s2) =
       Inr ([288, 288, 24][getNextColumnIndex [288, 288, 24] :=
              [288, 288, 24] ! getNextColumnIndex [288, 288, 24] + 240 + size_height (minSpace s2)], s3)"
    and q3: "entryAt s3 (node_key n3)
       \<lparr>li_type = node_type n3, li_key = node_key n3,
          li_rect = \<lparr>rect_x = margin s2 + real (getNextColumnIndex [288, 288, 24]) * (240 + 16),
                     rect_y = [288, 288, 24] ! getNextColumnIndex [288, 288, 24],
                     rect_width = 240, rect_height = 240\<rparr>,
          estimatedSize = True\<rparr>"
    and co3: "cacheOnly s2 s3"
    and o3: "\<And>k. k \<noteq> node_key n3 \<Longrightarrow> layoutInfos s3 k = layoutInfos s2 k"
    and k3: "\<And>k li. k \<noteq> node_key n3 \<Longrightarrow> entryAt s2 k li \<Longrightarrow> entryAt s3 k li"
    using square_step [OF f3 sq(3), of ic 240 16 "[288, 288, 24]"] by blast
  note c3 = cacheOnly_fields [OF co3]
  have ms2: "size_height (minSpace s2) = 24" "margin s2 = 24" using c2 ms1 by simp_all
  have st3: "layoutNode ic 240 16 n3 ([288, 288, 24], s2) = Inr ([288, 288, 288], s3)"
    using r3 by (simp add: next_columns(3) ms2)
  have e3: "entryAt s3 (node_key n3)
      (itemEntry n3 \<lparr>rect_x = 536, rect_y = 24, rect_width = 240, rect_height = 240\<rparr> True)"
    using q3 by (simp add: itemEntry_def new_LayoutInfo_def next_columns(3) ms2)
  have f4: "layoutInfos s3 (node_key n4) = None"
    using o3 [OF ne(6)] o2 [OF ne(5)] o1 [OF ne(3)] fr s0 by simp
  obtain s4 where
    r4: "layoutNode ic 240 16 n4 ([288, 288, 288], s3) =
       Inr ([288, 288, 288][getNextColumnIndex [288, 288, 288] :=
              [288, 288, 288] ! getNextColumnIndex [288, 288, 288] + 240 + size_height (minSpace s3)], s4)"
    and q4: "entryAt s4 (node_key n4)
       \<lparr>li_type = node_type n4, li_key = node_key n4,
          li_rect = \<lparr>rect_x = margin s3 + real (getNextColumnIndex [288, 288, 288]) * (240 + 16),
                     rect_y = [288, 288, 288] ! getNextColumnIndex [288, 288, 288],
                     rect_width = 240, rect_height = 240\<rparr>,
          estimatedSize = True\<rparr>"
    and co4: "cacheOnly s3 s4"
    and o4: "\<And>k. k \<noteq> node_key n4 \<Longrightarrow> layoutInfos s4 k = layoutInfos s3 k"
    and k4: "\<And>k li. k \<noteq> node_key n4 \<Longrightarrow> entryAt s3 k li \<Longrightarrow> entryAt s4 k li"
    using square_step [OF f4 sq(4), of ic 240 16 "[288, 288, 288]"] by blast
  note c4 = cacheOnly_fields [OF co4]
  have ms3: "size_height (minSpace s3) = 24" "margin s3 = 24" using c3 ms2 by simp_all
  have st4: "layoutNode ic 240 16 n4 ([288, 288, 288], s3) = Inr ([552, 288, 288], s4)"
    using r4 by (simp add: next_columns(4) ms3)
  have e4: "entryAt s4 (node_key n4)
      (itemEntry n4 \<lparr>rect_x = 24, rect_y = 288, rect_width = 240, rect_height = 240\<rparr> True)"
    using q4 by (simp add: itemEntry_def new_LayoutInfo_def next_columns(4) ms3)
  have items: "layoutItems ic s = Inr ([552, 288, 288], s4)"
    using metrics_800 [OF cfg] coll st1 st2 st3 st4
    by (simp add: layoutItems_def s0_def)
  have "entryAt s4 (node_key n1)
      (itemEntry n1 \<lparr>rect_x = 24, rect_y = 24, rect_width = 240, rect_height = 240\<rparr> True)"
    using k4 [OF ne(9) k3 [OF ne(8) k2 [OF ne(7) e1]]] .
  moreover have "entryAt s4 (node_key n2)
      (itemEntry n2 \<lparr>rect_x = 280, rect_y = 24, rect_width = 240, rect_height = 240\<rparr> True)"
    using k4 [OF ne(11) k3 [OF ne(10) e2]] .
  moreover have "entryAt s4 (node_key n3)
      (itemEntry n3 \<lparr>rect_x = 536, rect_y = 24, rect_width = 240, rect_height = 240\<rparr> True)"
    using k4 [OF ne(12) e3] .
  moreover have "numColumns s4 = 3" "itemWidth s4 = 240" "horizontalSpacing s4 = Some 16"
    using c1 c2 c3 c4 s0 by simp_all
  ultimately show ?thesis using items e4 by blast
qed

subsection \<open>The keys after a validation\<close>

lemma validate_fields:
  assumes "validate ic s = Inr s'"
  shows "minItemSize s' = minItemSize s" "maxItemSize s' = maxItemSize s" "margin s' = margin s"
    "minSpace s' = minSpace s" "maxColumns s' = maxColumns s" "itemPadding s' = itemPadding s"
    "collection s' = v_collection (virtualizer s)"
    "lastCollection s' = Some (v_collection (virtualizer s))"
    "isLoading s' = isLoading s" "direction s' = direction s" "virtualizer s' = virtualizer s"
proof -
  from validate_parts [OF assms] obtain b where
    b: "buildCollection ic (s\<lparr>collection := v_collection (virtualizer s)\<rparr>) = Inr b" and
    s': "s' = (case lastCollection s of None \<Rightarrow> b | Some lc \<Rightarrow> removeMissing lc b)
                  \<lparr>lastCollection := Some (v_collection (virtualizer s))\<rparr>"
    by blast
  note f = buildCollection_fields [OF b]
  define s2 where "s2 = (case lastCollection s of None \<Rightarrow> b | Some lc \<Rightarrow> removeMissing lc b)"
  have "cacheOnly b s2"
    by (cases "lastCollection s") (simp_all add: s2_def cacheOnly_refl removeMissing_props)
  note g = cacheOnly_fields [OF this]
  show "minItemSize s' = minItemSize s" "maxItemSize s' = maxItemSize s" "margin s' = margin s"
    "minSpace s' = minSpace s" "maxColumns s' = maxColumns s" "itemPadding s' = itemPadding s"
    "collection s' = v_collection (virtualizer s)"
    "lastCollection s' = Some (v_collection (virtualizer s))"
    "isLoading s' = isLoading s" "direction s' = direction s" "virtualizer s' = virtualizer s"
    using f g by (simp_all add: s' s2_def [symmetric])
qed

lemma validate_infos:
  assumes "validate ic s = Inr s'"
  shows "(layoutInfos s' k = None) =
     ((layoutInfos s k = None \<and> k \<notin> node_key ` set (v_collection (virtualizer s)) \<and>
        \<not> (isLoading s \<and> k = KString ''loader'') \<and>
        \<not> (v_collection (virtualizer s) = [] \<and> \<not> isLoading s \<and> k = KString ''placeholder''))
      \<or> (case lastCollection s of None \<Rightarrow> False
          | Some lc \<Rightarrow> (k \<in> set (getKeys lc) \<and> k \<notin> node_key ` set (v_collection (virtualizer s)))
              \<or> (\<not> isLoading s \<and> k = KString ''loader'')
              \<or> (v_collection (virtualizer s) \<noteq> [] \<and> k = KString ''placeholder'')))"
proof -
  from validate_parts [OF assms] obtain b where
    b: "buildCollection ic (s\<lparr>collection := v_collection (virtualizer s)\<rparr>) = Inr b" and
    s': "s' = (case lastCollection s of None \<Rightarrow> b | Some lc \<Rightarrow> removeMissing lc b)
                  \<lparr>lastCollection := Some (v_collection (virtualizer s))\<rparr>"
    by blast
  note f = buildCollection_fields [OF b]
  have cb: "collection b = v_collection (virtualizer s)" "isLoading b = isLoading s"
    using f(7,9) by simp_all
  define A where "A = (layoutInfos s k = None \<and> k \<notin> node_key ` set (v_collection (virtualizer s)) \<and>
        \<not> (isLoading s \<and> k = KString ''loader'') \<and>
        \<not> (v_collection (virtualizer s) = [] \<and> \<not> isLoading s \<and> k = KString ''placeholder''))"
  have i: "(layoutInfos b k = None) = A"
    using buildCollection_infos [OF b, of k] by (simp add: A_def)
  show ?thesis
  proof (cases "lastCollection s")
    case None
    with s' i show ?thesis by (simp add: A_def)
  next
    case (Some lc)
    define D where "D = ((k \<in> set (getKeys lc) \<and> k \<notin> node_key ` set (v_collection (virtualizer s)))
              \<or> (\<not> isLoading s \<and> k = KString ''loader'')
              \<or> (v_collection (virtualizer s) \<noteq> [] \<and> k = KString ''placeholder''))"
    have "layoutInfos s' k = layoutInfos (removeMissing lc b) k" using s' Some by simp
    also have "\<dots> = (if D then None else layoutInfos b k)"
      using removeMissing_props [of b lc k] by (simp add: cb getItem_None D_def)
    finally have "(layoutInfos s' k = None) = (A \<or> D)" using i by auto
    then show ?thesis by (simp add: Some A_def D_def)
  qed
qed

lemma entryAt_same:
  "layoutInfos t = layoutInfos s \<Longrightarrow> heap t = heap s \<Longrightarrow> nextRef t = nextRef s \<Longrightarrow>
   entryAt t k li = entryAt s k li"
  by (simp add: entryAt_def cong: option.case_cong)


lemma build_four_square:
  assumes cfg: "minItemSize s = \<lparr>size_width = 240, size_height = 136\<rparr>"
      "minSpace s = \<lparr>size_width = 24, size_height = 24\<rparr>"
      "margin s = 24"
      "rect_width (visibleRect (virtualizer s)) = 800"
      "Math_min (maxColumns s) 3 = 3"
    and coll: "collection s = [n1, n2, n3, n4]"
    and dist: "distinct [node_key n1, node_key n2, node_key n3, node_key n4, KString ''loader'']"
    and new: "\<forall>n \<in> set [n1, n2, n3, n4]. layoutInfos s (node_key n) = None \<and>
                \<not> (truthy (props_width (node_props n)) \<and> truthy (props_height (node_props n)))"
  shows "\<exists>s'. buildCollection ic s = Inr s' \<and>
           numColumns s' = 3 \<and> itemWidth s' = 240 \<and> horizontalSpacing s' = Some 16 \<and>
           entryAt s' (node_key n1)
               (itemEntry n1 \<lparr>rect_x = 24, rect_y = 24, rect_width = 240, rect_height = 240\<rparr> True) \<and>
           entryAt s' (node_key n2)
               (itemEntry n2 \<lparr>rect_x = 280, rect_y = 24, rect_width = 240, rect_height = 240\<rparr> True) \<and>
           entryAt s' (node_key n3)
               (itemEntry n3 \<lparr>rect_x = 536, rect_y = 24, rect_width = 240, rect_height = 240\<rparr> True) \<and>
           entryAt s' (node_key n4)
               (itemEntry n4 \<lparr>rect_x = 24, rect_y = 288, rect_width = 240, rect_height = 240\<rparr> True)"
proof -
  from dist have d4: "distinct [node_key n1, node_key n2, node_key n3, node_key n4]"
    and nl: "node_key n1 \<noteq> KString ''loader''" "node_key n2 \<noteq> KString ''loader''"
      "node_key n3 \<noteq> KString ''loader''" "node_key n4 \<noteq> KString ''loader''"
    by auto
  from four_square_items [OF cfg coll d4 new, of ic] obtain s4 where
    items: "layoutItems ic s = Inr ([552, 288, 288], s4)" and
    m: "numColumns s4 = 3" "itemWidth s4 = 240" "horizontalSpacing s4 = Some 16" and
    e1: "entryAt s4 (node_key n1)
        (itemEntry n1 \<lparr>rect_x = 24, rect_y = 24, rect_width = 240, rect_height = 240\<rparr> True)" and
    e2: "entryAt s4 (node_key n2)
        (itemEntry n2 \<lparr>rect_x = 280, rect_y = 24, rect_width = 240, rect_height = 240\<rparr> True)" and
    e3: "entryAt s4 (node_key n3)
        (itemEntry n3 \<lparr>rect_x = 536, rect_y = 24, rect_width = 240, rect_height = 240\<rparr> True)" and
    e4: "entryAt s4 (node_key n4)
        (itemEntry n4 \<lparr>rect_x = 24, rect_y = 288, rect_width = 240, rect_height = 240\<rparr> True)"
    by blast
  note a = layoutItems_fields [OF items]
  have "Math_max [552, 288, 288] = Some 552" by simp
  then obtain s' where fin: "finishBuild [552, 288, 288] s4 = Inr s'"
    by (simp add: finishBuild_def Let_def case_prod_beta)
  note c = cacheOnly_fields [OF finishBuild_cacheOnly [OF fin]]
  have ne: "collection s4 \<noteq> []" using a(7) coll by simp
  have b: "buildCollection ic s = Inr s'" using items fin by (simp add: buildCollection_def)
  have n: "numColumns s' = 3" "itemWidth s' = 240" "horizontalSpacing s' = Some 16"
    using c m by simp_all
  have k1: "entryAt s' (node_key n1)
      (itemEntry n1 \<lparr>rect_x = 24, rect_y = 24, rect_width = 240, rect_height = 240\<rparr> True)"
    by (rule finishBuild_keeps [OF fin e1]) (simp_all add: nl ne)
  have k2: "entryAt s' (node_key n2)
      (itemEntry n2 \<lparr>rect_x = 280, rect_y = 24, rect_width = 240, rect_height = 240\<rparr> True)"
    by (rule finishBuild_keeps [OF fin e2]) (simp_all add: nl ne)
  have k3: "entryAt s' (node_key n3)
      (itemEntry n3 \<lparr>rect_x = 536, rect_y = 24, rect_width = 240, rect_height = 240\<rparr> True)"
    by (rule finishBuild_keeps [OF fin e3]) (simp_all add: nl ne)
  have k4: "entryAt s' (node_key n4)
      (itemEntry n4 \<lparr>rect_x = 24, rect_y = 288, rect_width = 240, rect_height = 240\<rparr> True)"
    by (rule finishBuild_keeps [OF fin e4]) (simp_all add: nl ne)
  from b n(1) n(2) n(3) k1 k2 k3 k4 show ?thesis
    by (intro exI [of _ s'] conjI)
qed

subsection \<open>The example layouts\<close>

lemma freshLayout_fields:
  "minItemSize (freshLayout w c) = \<lparr>size_width = 240, size_height = 136\<rparr>"
  "minSpace (freshLayout w c) = \<lparr>size_width = 24, size_height = 24\<rparr>"
  "margin (freshLayout w c) = 24"
  "rect_width (visibleRect (virtualizer (freshLayout w c))) = w"
  "maxColumns (freshLayout w c) = Infinity"
  "maxItemSize (freshLayout w c) = \<lparr>max_width = Infinity, max_height = Infinity\<rparr>"
  "itemPadding (freshLayout w c) = 56"
  "layoutInfos (freshLayout w c) k = None"
  "lastCollection (freshLayout w c) = None"
  "v_collection (virtualizer (freshLayout w c)) = c"
  "isLoading (freshLayout w c) = False"
  "rect_height (visibleRect (virtualizer (freshLayout w c))) = 600"
  "direction (freshLayout w c) = LTR"
  by (simp_all add: freshLayout_def WaterfallLayout_def defaults_def view_def)



lemma freshLayout_metrics:
  "computeNumColumns (freshLayout 800 c) = Inr 3"
  "Array_fill 3 (margin (freshLayout 800 c)) = Inr [24, 24, 24]"
proof -
  have mm: "Math_min (maxColumns (freshLayout 800 c)) 3 = 3" by (simp add: freshLayout_fields)
  note m = metrics_800 [OF freshLayout_fields(1-4) mm]
  from m(1) show "computeNumColumns (freshLayout 800 c) = Inr 3" .
  from m(4) show "Array_fill 3 (margin (freshLayout 800 c)) = Inr [24, 24, 24]" .
qed

lemma laidOut_validate: "validate noChange (freshLayout 800 fourCards) = Inr laidOut"
proof -
  from validate_total [OF freshLayout_metrics] obtain s' where
    "validate noChange (freshLayout 800 fourCards) = Inr s'" by blast
  then show ?thesis by (simp add: laidOut_def)
qed


lemma laidOut_keys:
  "(layoutInfos laidOut k = None) = (k \<notin> {KString ''a'', KString ''b'', KString ''c'', KString ''d''})"
  using validate_infos [OF laidOut_validate, of k]
  by (simp add: freshLayout_fields fourCards_def plainCard_def)

lemma laidOut_entries:
  "horizontalSpacing laidOut = Some 16" "numColumns laidOut = 3" "itemWidth laidOut = 240"
  "entryAt laidOut (KString ''a'')
    
         (itemEntry (plainCard ''a'') \<lparr>rect_x = 24, rect_y = 24, rect_width = 240, rect_height = 240\<rparr> True)"
  "entryAt laidOut (KString ''b'')
    
         (itemEntry (plainCard ''b'') \<lparr>rect_x = 280, rect_y = 24, rect_width = 240, rect_height = 240\<rparr> True)"
  "entryAt laidOut (KString ''c'')
    
         (itemEntry (plainCard ''c'') \<lparr>rect_x = 536, rect_y = 24, rect_width = 240, rect_height = 240\<rparr> True)"
  "entryAt laidOut (KString ''d'')
    
         (itemEntry (plainCard ''d'') \<lparr>rect_x = 24, rect_y = 288, rect_width = 240, rect_height = 240\<rparr> True)"
proof -
  define s where "s = (freshLayout 800 fourCards)\<lparr>collection := fourCards\<rparr>"
  from validate_parts [OF laidOut_validate] obtain b where
    b: "buildCollection noChange s = Inr b" and
    l: "laidOut = b\<lparr>lastCollection := Some fourCards\<rparr>"
    by (auto simp: freshLayout_fields s_def)
  have cfg: "minItemSize s = \<lparr>size_width = 240, size_height = 136\<rparr>"
    "minSpace s = \<lparr>size_width = 24, size_height = 24\<rparr>" "margin s = 24"
    "rect_width (visibleRect (virtualizer s)) = 800" "Math_min (maxColumns s) 3 = 3"
    by (simp_all add: s_def freshLayout_fields)
  have coll: "collection s = [plainCard ''a'', plainCard ''b'', plainCard ''c'', plainCard ''d'']"
    by (simp add: s_def fourCards_def)
  have dist: "distinct [node_key (plainCard ''a''), node_key (plainCard ''b''), node_key (plainCard ''c''),
                        node_key (plainCard ''d''), KString ''loader'']"
    by (simp add: plainCard_def)
  have new: "\<forall>n \<in> set [plainCard ''a'', plainCard ''b'', plainCard ''c'', plainCard ''d''].
                layoutInfos s (node_key n) = None \<and>
                \<not> (truthy (props_width (node_props n)) \<and> truthy (props_height (node_props n)))"
    by (simp add: s_def freshLayout_fields plainCard_def)
  from build_four_square [OF cfg coll dist new, of noChange] b
  have r: "numColumns b = 3" "itemWidth b = 240" "horizontalSpacing b = Some 16"
    "entryAt b (KString ''a'')
      
           (itemEntry (plainCard ''a'') \<lparr>rect_x = 24, rect_y = 24, rect_width = 240, rect_height = 240\<rparr> True)"
    "entryAt b (KString ''b'')
      
           (itemEntry (plainCard ''b'') \<lparr>rect_x = 280, rect_y = 24, rect_width = 240, rect_height = 240\<rparr> True)"
    "entryAt b (KString ''c'')
      
           (itemEntry (plainCard ''c'') \<lparr>rect_x = 536, rect_y = 24, rect_width = 240, rect_height = 240\<rparr> True)"
    "entryAt b (KString ''d'')
      
           (itemEntry (plainCard ''d'') \<lparr>rect_x = 24, rect_y = 288, rect_width = 240, rect_height = 240\<rparr> True)"
    by (auto simp: plainCard_def)
  have same: "entryAt laidOut k li = entryAt b k li" for k li
    by (rule entryAt_same) (simp_all add: l)
  from r show "horizontalSpacing laidOut = Some 16" "numColumns laidOut = 3" "itemWidth laidOut = 240"
    by (simp_all add: l)
  from r same show "entryAt laidOut (KString ''a'')
    
         (itemEntry (plainCard ''a'') \<lparr>rect_x = 24, rect_y = 24, rect_width = 240, rect_height = 240\<rparr> True)"
  "entryAt laidOut (KString ''b'')
    
         (itemEntry (plainCard ''b'') \<lparr>rect_x = 280, rect_y = 24, rect_width = 240, rect_height = 240\<rparr> True)"
  "entryAt laidOut (KString ''c'')
    
         (itemEntry (plainCard ''c'') \<lparr>rect_x = 536, rect_y = 24, rect_width = 240, rect_height = 240\<rparr> True)"
  "entryAt laidOut (KString ''d'')
    
         (itemEntry (plainCard ''d'') \<lparr>rect_x = 24, rect_y = 288, rect_width = 240, rect_height = 240\<rparr> True)"
    by simp_all
qed

lemma laidOut_get:
  "cache_get laidOut (KString ''a'') =
     Some (itemEntry (plainCard ''a'')
          \<lparr>rect_x = 24, rect_y = 24, rect_width = 240, rect_height = 240\<rparr> True)"
  "cache_get laidOut (KString ''b'') =
     Some (itemEntry (plainCard ''b'')
          \<lparr>rect_x = 280, rect_y = 24, rect_width = 240, rect_height = 240\<rparr> True)"
  "cache_get laidOut (KString ''c'') =
     Some (itemEntry (plainCard ''c'')
          \<lparr>rect_x = 536, rect_y = 24, rect_width = 240, rect_height = 240\<rparr> True)"
  "cache_get laidOut (KString ''d'') =
     Some (itemEntry (plainCard ''d'')
          \<lparr>rect_x = 24, rect_y = 288, rect_width = 240, rect_height = 240\<rparr> True)"
  "cache_get laidOut (KString ''z'') = None"
  using laidOut_entries(4-7) [THEN entryAt_get] laidOut_keys [of "KString ''z''"]
  by (simp_all add: cache_get_def)

lemma cappedAtThree_metrics:
  "computeNumColumns (cappedAtThree 800) = Inr 3"
  "computeNumColumns (cappedAtThree 1100) = Inr 3"
  "Array_fill 3 (margin (cappedAtThree w)) = Inr [24, 24, 24]"
  "maxColumns (cappedAtThree w) = Finite 3"
  "minItemSize (cappedAtThree w) = \<lparr>size_width = 240, size_height = 136\<rparr>"
  "minSpace (cappedAtThree w) = \<lparr>size_width = 24, size_height = 24\<rparr>"
  "rect_width (visibleRect (virtualizer (cappedAtThree w))) = w"
proof -
  have f: "\<lfloor>800 / 264 :: real\<rfloor> = 3" "\<lfloor>1100 / 264 :: real\<rfloor> = 4" by linarith+
  show "computeNumColumns (cappedAtThree 800) = Inr 3"
    using f by (simp add: computeNumColumns_def cappedAtThree_def WaterfallLayout_def
        defaults_def view_def js_div_def Math_floor_def)
  show "computeNumColumns (cappedAtThree 1100) = Inr 3"
    using f by (simp add: computeNumColumns_def cappedAtThree_def WaterfallLayout_def
        defaults_def view_def js_div_def Math_floor_def)
  show "Array_fill 3 (margin (cappedAtThree w)) = Inr [24, 24, 24]"
    by (simp add: Array_fill_def cappedAtThree_def WaterfallLayout_def numeral_3_eq_3)
  show "maxColumns (cappedAtThree w) = Finite 3"
    "minItemSize (cappedAtThree w) = \<lparr>size_width = 240, size_height = 136\<rparr>"
    "minSpace (cappedAtThree w) = \<lparr>size_width = 24, size_height = 24\<rparr>"
    "rect_width (visibleRect (virtualizer (cappedAtThree w))) = w"
    by (simp_all add: cappedAtThree_def WaterfallLayout_def defaults_def view_def)
qed

lemma freshLayout_1100:
  "computeNumColumns (freshLayout 1100 c) = Inr 4"
  "Array_fill 4 (margin (freshLayout 1100 c)) = Inr [24, 24, 24, 24]"
proof -
  have f: "\<lfloor>1100 / 264 :: real\<rfloor> = 4" by linarith
  show "computeNumColumns (freshLayout 1100 c) = Inr 4"
    using f by (simp add: computeNumColumns_def freshLayout_fields js_div_def Math_floor_def)
  show "Array_fill 4 (margin (freshLayout 1100 c)) = Inr [24, 24, 24, 24]"
    by (simp add: Array_fill_def freshLayout_fields eval_nat_numeral)
qed

lemma findAmong_right_of_a:
  "getClosestRight (findAmong (getKeys fourCards)) laidOut (KString ''a'') = Inr (Some (KString ''b''))"
  by (simp add: getClosestRight_def getLayoutInfo_def laidOut_get laidOut_entries(1) findAmong_def
      getKeys_def fourCards_def plainCard_def List.map_filter_simps itemEntry_def new_LayoutInfo_def
      intersects_def maxX_def maxY_def Let_def)

subsection \<open>A changed height\<close>

lemma updateItemSize_changed:
  assumes e: "entryAt s k li" and ne: "size_height sz \<noteq> rect_height (li_rect li)"
  shows "fst (updateItemSize k (Some sz) s) = True"
    and "cache_get (snd (updateItemSize k (Some sz) s)) k
           = Some (li\<lparr>li_rect := (li_rect li)\<lparr>rect_height := size_height sz\<rparr>\<rparr>)"
    and "estimatedSize (heap (snd (updateItemSize k (Some sz) s)) (the (layoutInfos s k))) = False"
proof -
  from e obtain r where r: "layoutInfos s k = Some r" "r < nextRef s" "heap s r = li"
    by (auto simp: entryAt_def split: option.splits)
  then have d: "r \<noteq> nextRef s" by simp
  from r ne d show "fst (updateItemSize k (Some sz) s) = True"
    by (simp add: updateItemSize_def alloc_def cache_set_def Let_def)
  from r ne d show "cache_get (snd (updateItemSize k (Some sz) s)) k
           = Some (li\<lparr>li_rect := (li_rect li)\<lparr>rect_height := size_height sz\<rparr>\<rparr>)"
    by (simp add: updateItemSize_def alloc_def cache_set_def cache_get_def Let_def
        LayoutInfo_copy_def new_LayoutInfo_def)
  from r ne d show "estimatedSize (heap (snd (updateItemSize k (Some sz) s)) (the (layoutInfos s k))) = False"
    by (simp add: updateItemSize_def alloc_def cache_set_def Let_def)
qed

subsection \<open>More example layouts\<close>

lemma emptyShown_validate: "validate noChange (freshLayout 800 []) = Inr emptyShown"
proof -
  from validate_total [OF freshLayout_metrics] obtain s' where
    "validate noChange (freshLayout 800 []) = Inr s'" by blast
  then show ?thesis by (simp add: emptyShown_def)
qed

lemma emptyLoading_validate: "validate noChange (emptyShown\<lparr>isLoading := True\<rparr>) = Inr emptyLoading"
proof -
  note f = validate_fields [OF emptyShown_validate]
  have mm: "Math_min (maxColumns (emptyShown\<lparr>isLoading := True\<rparr>)) 3 = 3"
    using f(5) by (simp add: freshLayout_fields)
  have "minItemSize (emptyShown\<lparr>isLoading := True\<rparr>) = \<lparr>size_width = 240, size_height = 136\<rparr>"
    "minSpace (emptyShown\<lparr>isLoading := True\<rparr>) = \<lparr>size_width = 24, size_height = 24\<rparr>"
    "margin (emptyShown\<lparr>isLoading := True\<rparr>) = 24"
    "rect_width (visibleRect (virtualizer (emptyShown\<lparr>isLoading := True\<rparr>))) = 800"
    using f by (simp_all add: freshLayout_fields)
  note m = metrics_800 [OF this mm]
  from validate_total [OF m(1) m(4)] obtain s' where
    "validate noChange (emptyShown\<lparr>isLoading := True\<rparr>) = Inr s'" by blast
  then show ?thesis by (simp add: emptyLoading_def)
qed





subsection \<open>The entry of the loader\<close>

lemma addLoader_entry:
  assumes "isLoading s" and "addLoader y s = (y', s')"
  shows "entryAt s' (KString ''loader'')
           (new_LayoutInfo ''loader'' (KString ''loader'')
              \<lparr>rect_x = 0, rect_y = (if collection s = [] then 0 else y),
                 rect_width = rect_width (visibleRect (virtualizer s)),
                 rect_height = (if collection s = []
                                then (if rect_height (visibleRect (virtualizer s)) = 0 then 60
                                      else rect_height (visibleRect (virtualizer s)))
                                else 60)\<rparr>)"
  using assms
  by (auto simp: addLoader_def alloc_def cache_set_def entryAt_def Let_def)

lemma loadingLayout_fields:
  "minItemSize (loadingLayout h c) = \<lparr>size_width = 240, size_height = 136\<rparr>"
  "minSpace (loadingLayout h c) = \<lparr>size_width = 24, size_height = 24\<rparr>"
  "margin (loadingLayout h c) = 24"
  "rect_width (visibleRect (virtualizer (loadingLayout h c))) = 800"
  "maxColumns (loadingLayout h c) = Infinity"
  "layoutInfos (loadingLayout h c) k = None"
  "collection (loadingLayout h c) = c"
  "isLoading (loadingLayout h c) = True"
  "rect_height (visibleRect (virtualizer (loadingLayout h c))) = h"
  by (simp_all add: loadingLayout_def WaterfallLayout_def defaults_def view_def)

lemma loadingLayout_metrics:
  "computeNumColumns (loadingLayout h c) = Inr 3"
  "Array_fill 3 (margin (loadingLayout h c)) = Inr [24, 24, 24]"
proof -
  have mm: "Math_min (maxColumns (loadingLayout h c)) 3 = 3" by (simp add: loadingLayout_fields)
  note m = metrics_800 [OF loadingLayout_fields(1-4) mm]
  from m(1) show "computeNumColumns (loadingLayout h c) = Inr 3" .
  from m(4) show "Array_fill 3 (margin (loadingLayout h c)) = Inr [24, 24, 24]" .
qed

lemma loadingLayout_items:
  "\<exists>s1. layoutItems noChange (loadingLayout 600 fourCards) = Inr ([552, 288, 288], s1)"
proof -
  have mm: "Math_min (maxColumns (loadingLayout 600 fourCards)) 3 = 3"
    by (simp add: loadingLayout_fields)
  have coll: "collection (loadingLayout 600 fourCards) =
      [plainCard ''a'', plainCard ''b'', plainCard ''c'', plainCard ''d'']"
    by (simp add: loadingLayout_fields fourCards_def)
  have dist: "distinct [node_key (plainCard ''a''), node_key (plainCard ''b''),
      node_key (plainCard ''c''), node_key (plainCard ''d'')]"
    by (simp add: plainCard_def)
  have new: "\<forall>n \<in> set [plainCard ''a'', plainCard ''b'', plainCard ''c'', plainCard ''d''].
                layoutInfos (loadingLayout 600 fourCards) (node_key n) = None \<and>
                \<not> (truthy (props_width (node_props n)) \<and> truthy (props_height (node_props n)))"
    by (simp add: loadingLayout_fields plainCard_def)
  from four_square_items [OF loadingLayout_fields(1-4) mm coll dist new, of noChange]
  show ?thesis by blast
qed

section \<open>The properties of the specification\<close>

subsection \<open>C1: a measured height that differs from the cached one\<close>

text \<open>
  C1. The specification says that \<^verbatim>\<open>updateItemSize(key, size)\<close>, for a key with a cache
  entry and a height that differs from the cached one, replaces the entry by a new one with
  the same key and position, the height \<^verbatim>\<open>size.height\<close> and \<open>estimatedSize = false\<close>, and
  returns true. The program does all of this but the last: it clears the flag in the old
  object, after the copy has gone into the cache. On the layout of four cards after its first
  validation: the entry of \<open>a\<close> is estimated, with height 240; the call with the height 300
  returns true; the entry that the cache then has for \<open>a\<close> is at the same place with height
  300 and is still estimated; the flag of the old object, which the cache no longer holds, is
  cleared.
\<close>

theorem updateItemSize_keeps_estimated_flag:
  "cache_get laidOut (KString ''a'') =
     Some (itemEntry (plainCard ''a'')
          \<lparr>rect_x = 24, rect_y = 24, rect_width = 240, rect_height = 240\<rparr> True) \<and>
   fst (updateItemSize (KString ''a'') (Some \<lparr>size_width = 240, size_height = 300\<rparr>) laidOut) = True \<and>
   cache_get (snd (updateItemSize (KString ''a'') (Some \<lparr>size_width = 240, size_height = 300\<rparr>) laidOut))
       (KString ''a'') =
     Some (itemEntry (plainCard ''a'')
          \<lparr>rect_x = 24, rect_y = 24, rect_width = 240, rect_height = 300\<rparr> True) \<and>
   estimatedSize (heap (snd (updateItemSize (KString ''a'') (Some \<lparr>size_width = 240, size_height = 300\<rparr>) laidOut))
       (the (layoutInfos laidOut (KString ''a'')))) = False"
proof -
  have ne: "size_height \<lparr>size_width = 240, size_height = 300\<rparr> \<noteq>
            rect_height (li_rect (itemEntry (plainCard ''a'')
              \<lparr>rect_x = 24, rect_y = 24, rect_width = 240, rect_height = 240\<rparr> True))"
    by (simp add: itemEntry_def new_LayoutInfo_def)
  from updateItemSize_changed [OF laidOut_entries(4) ne] laidOut_get(1) show ?thesis
    by (simp add: itemEntry_def new_LayoutInfo_def)
qed

subsection \<open>C2: navigation from a key without a cache entry\<close>

text \<open>
  C2, as the program has it: for a key without a cache entry none of \<^verbatim>\<open>getClosestRight\<close>,
  \<^verbatim>\<open>getClosestLeft\<close>, \<^verbatim>\<open>getKeyRightOf\<close> and \<^verbatim>\<open>getKeyLeftOf\<close> returns: each reads
  the rectangle of the missing layout information and throws a TypeError, whatever
  \<^verbatim>\<open>_findClosest\<close> would find.
\<close>

theorem navigator_unknown_key:
  assumes "layoutInfos s k = None"
  shows "getClosestRight fc s k = Inl TypeError \<and> getClosestLeft fc s k = Inl TypeError \<and>
         getKeyRightOf fc s k = Inl TypeError \<and> getKeyLeftOf fc s k = Inl TypeError"
  using assms
  by (simp add: getClosestRight_def getClosestLeft_def getKeyRightOf_def getKeyLeftOf_def
      getLayoutInfo_def cache_get_def)

text \<open>
  The laid out four cards have no entry for the key \<open>z\<close>.
\<close>

theorem navigator_unknown_key_witness:
  "layoutInfos laidOut (KString ''z'') = None \<and>
   getClosestRight findNothing laidOut (KString ''z'') = Inl TypeError \<and>
   getClosestLeft findNothing laidOut (KString ''z'') = Inl TypeError \<and>
   getKeyRightOf findNothing laidOut (KString ''z'') = Inl TypeError \<and>
   getKeyLeftOf findNothing laidOut (KString ''z'') = Inl TypeError"
proof -
  have z: "layoutInfos laidOut (KString ''z'') = None" by (simp add: laidOut_keys)
  from navigator_unknown_key [OF z, where fc = findNothing] z show ?thesis by simp
qed

text \<open>
  C2 as the specification states it, a null result and no crash, fails there for each of
  the four queries.
\<close>

theorem navigator_unknown_key_no_null:
  "layoutInfos laidOut (KString ''z'') = None \<and>
   getClosestRight findNothing laidOut (KString ''z'') \<noteq> Inr None \<and>
   getClosestLeft findNothing laidOut (KString ''z'') \<noteq> Inr None \<and>
   getKeyRightOf findNothing laidOut (KString ''z'') \<noteq> Inr None \<and>
   getKeyLeftOf findNothing laidOut (KString ''z'') \<noteq> Inr None"
proof -
  have z: "layoutInfos laidOut (KString ''z'') = None" by (simp add: laidOut_keys)
  show ?thesis
    by (simp add: z getClosestRight_def getClosestLeft_def getKeyRightOf_def
        getKeyLeftOf_def getLayoutInfo_def cache_get_def)
qed

subsection \<open>C3: the keys of the cache after validation\<close>

text \<open>
  C3. The specification says that after every validation the cache has an entry for
  \<open>placeholder\<close> if and only if the collection is empty and not loading. The build pass
  creates the placeholder under exactly this condition, but \<^verbatim>\<open>validate\<close> deletes it only
  when the collection has items. An empty collection that is validated, then starts to load
  and is validated again keeps the placeholder next to the loader.
\<close>

theorem placeholder_left_while_loading:
  "validate noChange (freshLayout 800 []) = Inr emptyShown \<and>
   validate noChange (emptyShown\<lparr>isLoading := True\<rparr>) = Inr emptyLoading \<and>
   collection emptyLoading = [] \<and> isLoading emptyLoading \<and>
   layoutInfos emptyLoading (KString ''loader'') \<noteq> None \<and>
   layoutInfos emptyLoading (KString ''placeholder'') \<noteq> None"
proof -
  note f = validate_fields [OF emptyShown_validate]
  note g = validate_fields [OF emptyLoading_validate]
  have p1: "layoutInfos emptyShown (KString ''placeholder'') \<noteq> None"
    using validate_infos [OF emptyShown_validate, of "KString ''placeholder''"]
    by (simp add: freshLayout_fields)
  have c: "v_collection (virtualizer emptyShown) = []" "lastCollection emptyShown = Some []"
    using f by (simp_all add: freshLayout_fields)
  have p2: "layoutInfos emptyLoading (KString ''placeholder'') \<noteq> None"
    using validate_infos [OF emptyLoading_validate, of "KString ''placeholder''"] p1 c
    by (simp add: getKeys_def)
  have l2: "layoutInfos emptyLoading (KString ''loader'') \<noteq> None"
    using validate_infos [OF emptyLoading_validate, of "KString ''loader''"] c
    by (simp add: getKeys_def)
  from g c have "collection emptyLoading = []" "isLoading emptyLoading" by simp_all
  with emptyShown_validate emptyLoading_validate p2 l2 show ?thesis by simp
qed

subsection \<open>C4: the order of building and deleting\<close>




subsection \<open>C5: four square items in a viewport of width 800\<close>

text \<open>
  C5. With the viewport width 800, the minimum item size \<open>(240, 136)\<close>, the minimum
  space \<open>(24, 24)\<close>, the margin 24 and at least three columns allowed, a build over four
  nodes that have distinct keys (none of them the key of the loader), no cache entry and no
  intrinsic size returns; it computes three columns and the item width 240 (the rounded width
  is 235); the four items go to the columns 0, 1, 2, 0: each is placed at
  \<open>x = margin + column \<cdot> (itemWidth + horizontalSpacing)\<close>, in the column that
  \<^verbatim>\<open>getNextColumnIndex\<close> gives for the heights so far, with the height 240.
\<close>

theorem four_square_items_at_800:
  assumes "minItemSize s = \<lparr>size_width = 240, size_height = 136\<rparr>"
    and "minSpace s = \<lparr>size_width = 24, size_height = 24\<rparr>"
    and "margin s = 24"
    and "rect_width (visibleRect (virtualizer s)) = 800"
    and "Math_min (maxColumns s) 3 = 3"
    and "collection s = [n1, n2, n3, n4]"
    and "distinct [node_key n1, node_key n2, node_key n3, node_key n4, KString ''loader'']"
    and "\<forall>n \<in> set [n1, n2, n3, n4]. layoutInfos s (node_key n) = None \<and>
           \<not> (truthy (props_width (node_props n)) \<and> truthy (props_height (node_props n)))"
  shows "\<exists>s'. buildCollection ic s = Inr s' \<and>
           numColumns s' = 3 \<and>
           Math_round ((800 - 24 * 2 - 24 * (3 - 1)) / 3) = 235 \<and>
           itemWidth s' = 240 \<and> horizontalSpacing s' = Some 16 \<and>
           getNextColumnIndex [24, 24, 24] = 0 \<and>
           cache_get s' (node_key n1) = Some (itemEntry n1
             \<lparr>rect_x = 24 + 0 * (240 + 16), rect_y = 24, rect_width = 240, rect_height = 240\<rparr> True) \<and>
           getNextColumnIndex [288, 24, 24] = 1 \<and>
           cache_get s' (node_key n2) = Some (itemEntry n2
             \<lparr>rect_x = 24 + 1 * (240 + 16), rect_y = 24, rect_width = 240, rect_height = 240\<rparr> True) \<and>
           getNextColumnIndex [288, 288, 24] = 2 \<and>
           cache_get s' (node_key n3) = Some (itemEntry n3
             \<lparr>rect_x = 24 + 2 * (240 + 16), rect_y = 24, rect_width = 240, rect_height = 240\<rparr> True) \<and>
           getNextColumnIndex [288, 288, 288] = 0 \<and>
           cache_get s' (node_key n4) = Some (itemEntry n4
             \<lparr>rect_x = 24 + 0 * (240 + 16), rect_y = 288, rect_width = 240, rect_height = 240\<rparr> True)"
proof -
  from build_four_square [OF assms, of ic] obtain s' where
    b: "buildCollection ic s = Inr s'" and
    n: "numColumns s' = 3" "itemWidth s' = 240" "horizontalSpacing s' = Some 16" and
    e1: "entryAt s' (node_key n1)
        (itemEntry n1 \<lparr>rect_x = 24, rect_y = 24, rect_width = 240, rect_height = 240\<rparr> True)" and
    e2: "entryAt s' (node_key n2)
        (itemEntry n2 \<lparr>rect_x = 280, rect_y = 24, rect_width = 240, rect_height = 240\<rparr> True)" and
    e3: "entryAt s' (node_key n3)
        (itemEntry n3 \<lparr>rect_x = 536, rect_y = 24, rect_width = 240, rect_height = 240\<rparr> True)" and
    e4: "entryAt s' (node_key n4)
        (itemEntry n4 \<lparr>rect_x = 24, rect_y = 288, rect_width = 240, rect_height = 240\<rparr> True)"
    by blast
  have r: "Math_round (704 / 3) = 235"
  proof -
    have "\<lfloor>704 / 3 + 1 / 2 :: real\<rfloor> = 235" by linarith
    then show ?thesis by (simp add: Math_round_def)
  qed
  note g = entryAt_get [OF e1] entryAt_get [OF e2] entryAt_get [OF e3] entryAt_get [OF e4]
  show ?thesis
    by (rule exI [of _ s']) (simp add: b n r g next_columns)
qed

text \<open>
  The four cards in a new layout.
\<close>

theorem four_square_items_at_800_witness:
  "buildCollection noChange ((freshLayout 800 fourCards)\<lparr>collection := fourCards\<rparr>) =
     Inr (projr (buildCollection noChange ((freshLayout 800 fourCards)\<lparr>collection := fourCards\<rparr>))) \<and>
   numColumns (projr (buildCollection noChange ((freshLayout 800 fourCards)\<lparr>collection := fourCards\<rparr>))) = 3 \<and>
   itemWidth (projr (buildCollection noChange ((freshLayout 800 fourCards)\<lparr>collection := fourCards\<rparr>))) = 240 \<and>
   map_option li_rect (cache_get
      (projr (buildCollection noChange ((freshLayout 800 fourCards)\<lparr>collection := fourCards\<rparr>)))
      (KString ''a'')) = Some \<lparr>rect_x = 24, rect_y = 24, rect_width = 240, rect_height = 240\<rparr> \<and>
   map_option li_rect (cache_get
      (projr (buildCollection noChange ((freshLayout 800 fourCards)\<lparr>collection := fourCards\<rparr>)))
      (KString ''b'')) = Some \<lparr>rect_x = 280, rect_y = 24, rect_width = 240, rect_height = 240\<rparr> \<and>
   map_option li_rect (cache_get
      (projr (buildCollection noChange ((freshLayout 800 fourCards)\<lparr>collection := fourCards\<rparr>)))
      (KString ''c'')) = Some \<lparr>rect_x = 536, rect_y = 24, rect_width = 240, rect_height = 240\<rparr> \<and>
   map_option li_rect (cache_get
      (projr (buildCollection noChange ((freshLayout 800 fourCards)\<lparr>collection := fourCards\<rparr>)))
      (KString ''d'')) = Some \<lparr>rect_x = 24, rect_y = 288, rect_width = 240, rect_height = 240\<rparr>"
proof -
  define s where "s = (freshLayout 800 fourCards)\<lparr>collection := fourCards\<rparr>"
  have cfg: "minItemSize s = \<lparr>size_width = 240, size_height = 136\<rparr>"
    "minSpace s = \<lparr>size_width = 24, size_height = 24\<rparr>" "margin s = 24"
    "rect_width (visibleRect (virtualizer s)) = 800" "Math_min (maxColumns s) 3 = 3"
    by (simp_all add: s_def freshLayout_fields)
  have coll: "collection s = [plainCard ''a'', plainCard ''b'', plainCard ''c'', plainCard ''d'']"
    by (simp add: s_def fourCards_def)
  have dist: "distinct [node_key (plainCard ''a''), node_key (plainCard ''b''),
      node_key (plainCard ''c''), node_key (plainCard ''d''), KString ''loader'']"
    by (simp add: plainCard_def)
  have new: "\<forall>n \<in> set [plainCard ''a'', plainCard ''b'', plainCard ''c'', plainCard ''d''].
                layoutInfos s (node_key n) = None \<and>
                \<not> (truthy (props_width (node_props n)) \<and> truthy (props_height (node_props n)))"
    by (simp add: s_def freshLayout_fields plainCard_def)
  from four_square_items_at_800 [OF cfg coll dist new, of noChange]
  show ?thesis
    unfolding s_def [symmetric]
    by (auto simp: plainCard_def itemEntry_def new_LayoutInfo_def)
qed

subsection \<open>C6: the number of columns\<close>

text \<open>
  C6. Two layouts with the same minimum item size, minimum space and maximum of columns,
  the second with a viewport at least as wide as the first, where the sum of the minimum
  item width and the minimum space width is positive, as the specification assumes, and the
  maximum of columns is at least 1, so that the interval \<open>[1, maxColumns]\<close> is not empty.
  Then the build pass computes a number of columns for each of them, whatever the widths: the
  second has at least as many columns as the first, both numbers are in \<open>[1, maxColumns]\<close>,
  and they are the \<open>numColumns\<close> of every build of the two layouts that returns.
\<close>

theorem numColumns_monotone_and_bounded:
  assumes "0 < size_width (minItemSize s) + size_width (minSpace s)"
    and "inColumnRange 1 (maxColumns s)"
    and "minItemSize t = minItemSize s" and "minSpace t = minSpace s"
    and "maxColumns t = maxColumns s"
    and "rect_width (visibleRect (virtualizer s)) \<le> rect_width (visibleRect (virtualizer t))"
  shows "\<exists>m n. computeNumColumns s = Inr m \<and> computeNumColumns t = Inr n \<and> m \<le> n \<and>
           inColumnRange m (maxColumns s) \<and> inColumnRange n (maxColumns s) \<and>
           (\<forall>ic s'. buildCollection ic s = Inr s' \<longrightarrow> numColumns s' = m) \<and>
           (\<forall>ic t'. buildCollection ic t = Inr t' \<longrightarrow> numColumns t' = n)"
proof -
  from assms(1) computeNumColumns_returns [of s] obtain m where
    m: "computeNumColumns s = Inr m" by auto
  from assms(1,3,4) computeNumColumns_returns [of t] obtain n where
    n: "computeNumColumns t = Inr n" by auto
  have pos: "0 < size_width (minItemSize s) + size_width (minSpace s)
              \<or> 0 \<le> rect_width (visibleRect (virtualizer s))"
    using assms(1) by simp
  have le: "m \<le> n" by (rule computeNumColumns_mono [OF m n assms(3-6) pos])
  have rm: "inColumnRange m (maxColumns s)"
    by (rule inColumnRange_from_bounds [OF assms(2) computeNumColumns_bounds [OF m]])
  have rn: "inColumnRange n (maxColumns s)"
    using inColumnRange_from_bounds [OF _ computeNumColumns_bounds [OF n]] assms(2,5) by simp
  have bs: "numColumns s' = m" if "buildCollection ic s = Inr s'" for ic s'
    using buildCollection_numColumns [OF that] m by simp
  have bt: "numColumns t' = n" if "buildCollection ic t = Inr t'" for ic t'
    using buildCollection_numColumns [OF that] n by simp
  from m n le rm rn bs bt show ?thesis by blast
qed

text \<open>
  New layouts of width 800 and 1100: three and four columns without a maximum, three and
  three with a maximum of three.
\<close>

theorem numColumns_monotone_and_bounded_witness:
  "computeNumColumns (freshLayout 800 []) = Inr 3 \<and>
   computeNumColumns (freshLayout 1100 []) = Inr 4 \<and>
   inColumnRange 3 (maxColumns (freshLayout 800 [])) \<and>
   inColumnRange 4 (maxColumns (freshLayout 800 [])) \<and>
   buildCollection noChange (freshLayout 800 []) =
     Inr (projr (buildCollection noChange (freshLayout 800 []))) \<and>
   numColumns (projr (buildCollection noChange (freshLayout 800 []))) = 3 \<and>
   buildCollection noChange (freshLayout 1100 []) =
     Inr (projr (buildCollection noChange (freshLayout 1100 []))) \<and>
   numColumns (projr (buildCollection noChange (freshLayout 1100 []))) = 4 \<and>
   computeNumColumns (cappedAtThree 800) = Inr 3 \<and>
   computeNumColumns (cappedAtThree 1100) = Inr 3 \<and>
   maxColumns (cappedAtThree 800) = Finite 3 \<and>
   inColumnRange 3 (maxColumns (cappedAtThree 800)) \<and>
   buildCollection noChange (cappedAtThree 1100) =
     Inr (projr (buildCollection noChange (cappedAtThree 1100))) \<and>
   numColumns (projr (buildCollection noChange (cappedAtThree 1100))) = 3"
proof -
  have a: "buildCollection noChange (freshLayout 800 []) =
             Inr (projr (buildCollection noChange (freshLayout 800 [])))"
    using buildCollection_total [OF freshLayout_metrics [of "[]"], of noChange] by auto
  have b: "buildCollection noChange (freshLayout 1100 []) =
             Inr (projr (buildCollection noChange (freshLayout 1100 [])))"
    using buildCollection_total [OF freshLayout_1100 [of "[]"], of noChange] by auto
  have c: "buildCollection noChange (cappedAtThree 1100) =
             Inr (projr (buildCollection noChange (cappedAtThree 1100)))"
    using buildCollection_total [OF cappedAtThree_metrics(2,3), of noChange] by auto
  have h1: "0 < size_width (minItemSize (freshLayout 800 [])) + size_width (minSpace (freshLayout 800 []))"
    "inColumnRange 1 (maxColumns (freshLayout 800 []))"
    "minItemSize (freshLayout 1100 []) = minItemSize (freshLayout 800 [])"
    "minSpace (freshLayout 1100 []) = minSpace (freshLayout 800 [])"
    "maxColumns (freshLayout 1100 []) = maxColumns (freshLayout 800 [])"
    "rect_width (visibleRect (virtualizer (freshLayout 800 [])))
       \<le> rect_width (visibleRect (virtualizer (freshLayout 1100 [])))"
    by (simp_all add: freshLayout_fields inColumnRange_def)
  have h2: "0 < size_width (minItemSize (cappedAtThree 800)) + size_width (minSpace (cappedAtThree 800))"
    "inColumnRange 1 (maxColumns (cappedAtThree 800))"
    "minItemSize (cappedAtThree 1100) = minItemSize (cappedAtThree 800)"
    "minSpace (cappedAtThree 1100) = minSpace (cappedAtThree 800)"
    "maxColumns (cappedAtThree 1100) = maxColumns (cappedAtThree 800)"
    "rect_width (visibleRect (virtualizer (cappedAtThree 800)))
       \<le> rect_width (visibleRect (virtualizer (cappedAtThree 1100)))"
    by (simp_all add: cappedAtThree_metrics inColumnRange_def)
  from numColumns_monotone_and_bounded [OF h1] obtain m n where
    r1: "computeNumColumns (freshLayout 800 []) = Inr m"
      "computeNumColumns (freshLayout 1100 []) = Inr n"
      "inColumnRange m (maxColumns (freshLayout 800 []))"
      "inColumnRange n (maxColumns (freshLayout 800 []))"
      "\<forall>ic s'. buildCollection ic (freshLayout 800 []) = Inr s' \<longrightarrow> numColumns s' = m"
      "\<forall>ic t'. buildCollection ic (freshLayout 1100 []) = Inr t' \<longrightarrow> numColumns t' = n"
    by blast
  from r1(1,2) have mn: "m = 3" "n = 4"
    by (simp_all add: freshLayout_metrics(1) freshLayout_1100(1))
  from numColumns_monotone_and_bounded [OF h2] obtain p q where
    r2: "computeNumColumns (cappedAtThree 800) = Inr p"
      "computeNumColumns (cappedAtThree 1100) = Inr q"
      "inColumnRange p (maxColumns (cappedAtThree 800))"
      "\<forall>ic t'. buildCollection ic (cappedAtThree 1100) = Inr t' \<longrightarrow> numColumns t' = q"
    by blast
  from r2(1,2) have pq: "p = 3" "q = 3" by (simp_all add: cappedAtThree_metrics(1,2))
  from r1(5) a have na: "numColumns (projr (buildCollection noChange (freshLayout 800 []))) = m"
    by blast
  from r1(6) b have nb: "numColumns (projr (buildCollection noChange (freshLayout 1100 []))) = n"
    by blast
  from r2(4) c have nc: "numColumns (projr (buildCollection noChange (cappedAtThree 1100))) = q"
    by blast
  from r1 r2 mn pq na nb nc a b c cappedAtThree_metrics(4) [of 800] show ?thesis
    by simp
qed

subsection \<open>C7: the calls that updateItemSize ignores\<close>

text \<open>
  C7. \<^verbatim>\<open>updateItemSize(key, size)\<close> returns false and leaves the whole layout as it is,
  the cache and every entry with it, when the size is absent, or the key has no cache entry,
  or the height of the size is the height of the cached entry.
\<close>

theorem updateItemSize_ignored:
  assumes "case msize of None \<Rightarrow> True
           | Some sz \<Rightarrow> (case cache_get s k of None \<Rightarrow> True
                       | Some li \<Rightarrow> size_height sz = rect_height (li_rect li))"
  shows "updateItemSize k msize s = (False, s)"
  using assms
  by (auto simp: updateItemSize_def cache_get_def Let_def split: option.splits)

text \<open>
  The three cases on the laid out four cards.
\<close>

theorem updateItemSize_ignored_witness:
  "updateItemSize (KString ''a'') None laidOut = (False, laidOut) \<and>
   updateItemSize (KString ''z'') (Some \<lparr>size_width = 240, size_height = 300\<rparr>) laidOut = (False, laidOut) \<and>
   updateItemSize (KString ''a'') (Some \<lparr>size_width = 240, size_height = 240\<rparr>) laidOut = (False, laidOut)"
  using updateItemSize_ignored [where msize = None and s = laidOut and k = "KString ''a''"]
    updateItemSize_ignored [where msize = "Some \<lparr>size_width = 240, size_height = 300\<rparr>"
      and s = laidOut and k = "KString ''z''"]
    updateItemSize_ignored [where msize = "Some \<lparr>size_width = 240, size_height = 240\<rparr>"
      and s = laidOut and k = "KString ''a''"]
  by (simp add: laidOut_get itemEntry_def new_LayoutInfo_def)

subsection \<open>C8: the rectangle of the loader\<close>

text \<open>
  C8. A build of a loading layout that returns leaves a loader entry. For a collection
  with items its rectangle spans the viewport width at \<open>x = 0\<close>, has the height 60 and is at
  \<open>y = m - minSpace.height + margin\<close>, where \<open>m\<close> is the greatest column height after the
  loop over the items; for an empty collection it is \<open>(0, 0, width, h)\<close> with \<open>h\<close> the height
  of the viewport, or 60 if that is zero.
\<close>

theorem loader_rectangle:
  assumes "buildCollection ic s = Inr s'" and "isLoading s"
  shows "\<exists>cols s1 m. layoutItems ic s = Inr (cols, s1) \<and> Math_max cols = Some m \<and>
           map_option li_rect (cache_get s' (KString ''loader'')) =
             Some (if collection s = []
                   then \<lparr>rect_x = 0, rect_y = 0,
                          rect_width = rect_width (visibleRect (virtualizer s)),
                          rect_height = (if rect_height (visibleRect (virtualizer s)) = 0 then 60
                                         else rect_height (visibleRect (virtualizer s)))\<rparr>
                   else \<lparr>rect_x = 0, rect_y = m - size_height (minSpace s) + margin s,
                          rect_width = rect_width (visibleRect (virtualizer s)),
                          rect_height = 60\<rparr>)"
proof -
  from buildCollection_parts [OF assms(1)] obtain cols s1 where
    items: "layoutItems ic s = Inr (cols, s1)" and fin: "finishBuild cols s1 = Inr s'" by blast
  note a = layoutItems_fields [OF items]
  from finishBuild_parts [OF fin] obtain m y1 t1 y2 t2 where
    m: "Math_max cols = Some m" and
    l: "addLoader (m - size_height (minSpace s1) + margin s1) s1 = (y1, t1)" and
    p: "addPlaceholder y1 t1 = (y2, t2)" and
    s': "s' = t2\<lparr>contentSize := \<lparr>size_width = rect_width (visibleRect (virtualizer t2)),
                                     size_height = y2\<rparr>\<rparr>"
    by blast
  have load: "isLoading s1" using a(9) assms(2) by simp
  note e1 = addLoader_entry [OF load l]
  from cacheOnly_fields(12) [OF addLoader_cacheOnly [OF l]] load have "isLoading t1" by simp
  then have e2: "entryAt t2 (KString ''loader'')
           (new_LayoutInfo ''loader'' (KString ''loader'')
              \<lparr>rect_x = 0, rect_y = (if collection s1 = [] then 0
                                      else m - size_height (minSpace s1) + margin s1),
                 rect_width = rect_width (visibleRect (virtualizer s1)),
                 rect_height = (if collection s1 = []
                                then (if rect_height (visibleRect (virtualizer s1)) = 0 then 60
                                      else rect_height (visibleRect (virtualizer s1)))
                                else 60)\<rparr>)"
    by (intro addPlaceholder_keeps [OF p e1]) simp
  have "entryAt s' k li = entryAt t2 k li" for k li
    by (rule entryAt_same) (simp_all add: s')
  with e2 have "cache_get s' (KString ''loader'') = Some
           (new_LayoutInfo ''loader'' (KString ''loader'')
              \<lparr>rect_x = 0, rect_y = (if collection s1 = [] then 0
                                      else m - size_height (minSpace s1) + margin s1),
                 rect_width = rect_width (visibleRect (virtualizer s1)),
                 rect_height = (if collection s1 = []
                                then (if rect_height (visibleRect (virtualizer s1)) = 0 then 60
                                      else rect_height (visibleRect (virtualizer s1)))
                                else 60)\<rparr>)"
    by (simp add: entryAt_get)
  then have "map_option li_rect (cache_get s' (KString ''loader'')) =
             Some (if collection s = []
                   then \<lparr>rect_x = 0, rect_y = 0,
                          rect_width = rect_width (visibleRect (virtualizer s)),
                          rect_height = (if rect_height (visibleRect (virtualizer s)) = 0 then 60
                                         else rect_height (visibleRect (virtualizer s)))\<rparr>
                   else \<lparr>rect_x = 0, rect_y = m - size_height (minSpace s) + margin s,
                          rect_width = rect_width (visibleRect (virtualizer s)),
                          rect_height = 60\<rparr>)"
    by (simp add: a new_LayoutInfo_def)
  with items m show ?thesis by blast
qed

text \<open>
  A loading layout with the four cards, and two empty ones with the heights 0 and 600.
\<close>

theorem loader_rectangle_witness:
  "isLoading (loadingLayout 600 fourCards) \<and>
   buildCollection noChange (loadingLayout 600 fourCards) =
     Inr (projr (buildCollection noChange (loadingLayout 600 fourCards))) \<and>
   map_option li_rect
     (cache_get (projr (buildCollection noChange (loadingLayout 600 fourCards))) (KString ''loader''))
     = Some \<lparr>rect_x = 0, rect_y = 552, rect_width = 800, rect_height = 60\<rparr> \<and>
   isLoading (loadingLayout 0 []) \<and>
   buildCollection noChange (loadingLayout 0 []) =
     Inr (projr (buildCollection noChange (loadingLayout 0 []))) \<and>
   map_option li_rect
     (cache_get (projr (buildCollection noChange (loadingLayout 0 []))) (KString ''loader''))
     = Some \<lparr>rect_x = 0, rect_y = 0, rect_width = 800, rect_height = 60\<rparr> \<and>
   map_option li_rect
     (cache_get (projr (buildCollection noChange (loadingLayout 600 []))) (KString ''loader''))
     = Some \<lparr>rect_x = 0, rect_y = 0, rect_width = 800, rect_height = 600\<rparr>"
proof -
  have t: "buildCollection noChange (loadingLayout h c) =
             Inr (projr (buildCollection noChange (loadingLayout h c)))" for h c
    using buildCollection_total [OF loadingLayout_metrics [of h c], of noChange] by auto
  have l: "isLoading (loadingLayout h c)" for h c by (simp add: loadingLayout_fields)
  from loadingLayout_items obtain s1 where
    i: "layoutItems noChange (loadingLayout 600 fourCards) = Inr ([552, 288, 288], s1)" by blast
  have a: "map_option li_rect
     (cache_get (projr (buildCollection noChange (loadingLayout 600 fourCards))) (KString ''loader''))
     = Some \<lparr>rect_x = 0, rect_y = 552, rect_width = 800, rect_height = 60\<rparr>"
    using loader_rectangle [OF t l, of 600 fourCards] i
    by (auto simp: loadingLayout_fields fourCards_def)
  have b: "map_option li_rect
     (cache_get (projr (buildCollection noChange (loadingLayout 0 []))) (KString ''loader''))
     = Some \<lparr>rect_x = 0, rect_y = 0, rect_width = 800, rect_height = 60\<rparr>"
    using loader_rectangle [OF t l, of 0 "[]"] by (auto simp: loadingLayout_fields)
  have c: "map_option li_rect
     (cache_get (projr (buildCollection noChange (loadingLayout 600 []))) (KString ''loader''))
     = Some \<lparr>rect_x = 0, rect_y = 0, rect_width = 800, rect_height = 600\<rparr>"
    using loader_rectangle [OF t l, of 600 "[]"] by (auto simp: loadingLayout_fields)
  from a b c t l show ?thesis by blast
qed

subsection \<open>C9: left and right under a change of direction\<close>

text \<open>
  C9. If \<^verbatim>\<open>getClosestRight\<close> gives \<open>b\<close> for \<open>a\<close>, then \<^verbatim>\<open>getKeyRightOf\<close> gives \<open>b\<close>
  in a left-to-right layout and \<^verbatim>\<open>getKeyLeftOf\<close> gives \<open>b\<close> once the direction is
  right-to-left, where \<^verbatim>\<open>getKeyRightOf\<close> is \<^verbatim>\<open>getClosestLeft\<close>; the change of direction
  leaves the cache as it is.
\<close>

theorem navigator_direction_swap:
  assumes "getClosestRight fc s a = Inr (Some b)"
  shows "getKeyRightOf fc (s\<lparr>direction := LTR\<rparr>) a = Inr (Some b) \<and>
         getKeyLeftOf fc (s\<lparr>direction := RTL\<rparr>) a = Inr (Some b) \<and>
         getKeyRightOf fc (s\<lparr>direction := RTL\<rparr>) a = getClosestLeft fc s a \<and>
         getKeyLeftOf fc (s\<lparr>direction := LTR\<rparr>) a = getClosestLeft fc s a \<and>
         cache_get (s\<lparr>direction := RTL\<rparr>) = cache_get s"
proof -
  have c: "cache_get (s\<lparr>direction := d\<rparr>) = cache_get s" for d
    by (rule ext) (simp add: cache_get_def)
  have r: "getClosestRight fc (s\<lparr>direction := d\<rparr>) a = getClosestRight fc s a" for d
    by (simp add: getClosestRight_def getLayoutInfo_def c Let_def cong: option.case_cong if_cong)
  have l: "getClosestLeft fc (s\<lparr>direction := d\<rparr>) a = getClosestLeft fc s a" for d
    by (simp add: getClosestLeft_def getLayoutInfo_def c Let_def cong: option.case_cong if_cong)
  show ?thesis using assms by (simp add: getKeyRightOf_def getKeyLeftOf_def r l c)
qed

text \<open>
  In the laid out four cards, \<open>b\<close> is to the right of \<open>a\<close>.
\<close>

theorem navigator_direction_swap_witness:
  "getClosestRight (findAmong (getKeys fourCards)) laidOut (KString ''a'') = Inr (Some (KString ''b'')) \<and>
   getKeyRightOf (findAmong (getKeys fourCards)) (laidOut\<lparr>direction := LTR\<rparr>) (KString ''a'')
     = Inr (Some (KString ''b'')) \<and>
   getKeyLeftOf (findAmong (getKeys fourCards)) (laidOut\<lparr>direction := RTL\<rparr>) (KString ''a'')
     = Inr (Some (KString ''b'')) \<and>
   cache_get (laidOut\<lparr>direction := RTL\<rparr>) = cache_get laidOut"
  using navigator_direction_swap [OF findAmong_right_of_a] findAmong_right_of_a by simp

subsection \<open>C10: no division by an intrinsic height of zero\<close>

text \<open>
  C10. For a node without a cache entry the height is scaled from the intrinsic size only
  when the intrinsic width and height are both present and not zero; in every other case it
  is the item width. So the height is always a number: the division by the intrinsic height
  is never a division by zero, and the loop of the build over any nodes returns.
\<close>

theorem intrinsic_height_never_zero:
  assumes "cache_get s (node_key node) = None"
  shows "computeHeight ic s iw node =
           (case (props_width (node_props node), props_height (node_props node)) of
              (Some w, Some h) \<Rightarrow>
                if w \<noteq> 0 \<and> h \<noteq> 0
                then Inr (max (size_height (minItemSize s))
                            (Math_min (max_height (maxItemSize s)) (Math_round (w * (iw / h))))
                          + itemPadding s, True)
                else Inr (iw, True)
            | _ \<Rightarrow> Inr (iw, True)) \<and>
         computeHeight ic s iw node \<noteq> Inl NonFinite \<and>
         (\<exists>cols' s'. layoutNodes ic iw hs nodes (cols, s) = Inr (cols', s'))"
  using assms layoutNodes_total [of ic iw hs nodes cols s]
  by (auto simp: computeHeight_def js_div_def Let_def split: option.splits)

text \<open>
  A photo of 1024 by 683 at the item width 240, the same with a height or a width of
  zero, and a card without intrinsic size.
\<close>

theorem intrinsic_height_never_zero_witness:
  "cache_get (freshLayout 800 []) (node_key (photo ''p'' 1024 683)) = None \<and>
   computeHeight noChange (freshLayout 800 []) 240 (photo ''p'' 1024 683) = Inr (416, True) \<and>
   computeHeight noChange (freshLayout 800 []) 240 (photo ''p'' 1024 0) = Inr (240, True) \<and>
   computeHeight noChange (freshLayout 800 []) 240 (photo ''p'' 0 683) = Inr (240, True) \<and>
   computeHeight noChange (freshLayout 800 []) 240 (plainCard ''p'') = Inr (240, True)"
proof -
  have n: "cache_get (freshLayout 800 []) (KString ''p'') = None"
    by (simp add: cache_get_def freshLayout_fields)
  have k: "node_key (photo ''p'' w h) = KString ''p''" "node_key (plainCard ''p'') = KString ''p''" for w h
    by (simp_all add: photo_def plainCard_def)
  have r: "\<lfloor>1024 * (240 / 683) + 1 / 2 :: real\<rfloor> = 360" by linarith
  from intrinsic_height_never_zero [where s = "freshLayout 800 []" and node = "photo ''p'' 1024 683"
      and ic = noChange and iw = 240]
    intrinsic_height_never_zero [where s = "freshLayout 800 []" and node = "photo ''p'' 1024 0"
      and ic = noChange and iw = 240]
    intrinsic_height_never_zero [where s = "freshLayout 800 []" and node = "photo ''p'' 0 683"
      and ic = noChange and iw = 240]
    intrinsic_height_never_zero [where s = "freshLayout 800 []" and node = "plainCard ''p''"
      and ic = noChange and iw = 240]
    n r
  show ?thesis
    by (simp add: k photo_def plainCard_def freshLayout_fields Math_round_def)
qed

end
